theory Spec2Isabelle
  imports Main "HOL-Library.AList" "HOL-Library.Word"
begin

section \<open>Errors (src/errors.ts)\<close>

text \<open>
  Every \<^verbatim>\<open>throw\<close> of the driver is a value of \<open>error\<close>. \<open>InvalidValue\<close> carries its
  message, \<open>InvalidArity\<close> its three public fields \<^verbatim>\<open>min\<close>, \<^verbatim>\<open>max\<close>, \<^verbatim>\<open>actual\<close>
  (\<^verbatim>\<open>null\<close> bounds are \<open>None\<close>). \<open>TypeError\<close> is the host language's own exception
  (a property read on \<^verbatim>\<open>undefined\<close>, an assignment to a read-only property);
  \<open>PlainError\<close> is an exception of any other kind (the \<^verbatim>\<open>Error\<close> that a library
  raises, or whatever else a callable of the caller throws); \<open>ServerError\<close> is
  whatever the transport rejects a request with.
\<close>

datatype error =
    InvalidValue string
  | InvalidArity "nat option" "nat option" nat
  | TypeError
  | PlainError
  | ServerError string

section \<open>Reference values (src/values.ts, class Ref)\<close>

text \<open>
  \<^verbatim>\<open>this.value = { id, class: clazz, database }\<close>: an absent \<^verbatim>\<open>class\<close> or
  \<^verbatim>\<open>database\<close> is \<^verbatim>\<open>undefined\<close>, here \<open>None\<close>.
\<close>

datatype ref = Ref (ref_id: string) (ref_class: "ref option") (ref_database: "ref option")

text \<open>
  The declared type of the constructor's first argument is \<^verbatim>\<open>string\<close>, which (without
  strict null checks) also admits \<^verbatim>\<open>undefined\<close> and \<^verbatim>\<open>null\<close>; the test suite calls
  \<^verbatim>\<open>new Ref()\<close>.
\<close>

datatype id_arg = IdUndefined | IdNull | IdString string

text \<open>\<^verbatim>\<open>!id\<close> on a value of that type.\<close>

fun falsy_id :: "id_arg \<Rightarrow> bool" where
  "falsy_id IdUndefined = True"
| "falsy_id IdNull = True"
| "falsy_id (IdString s) = (s = [])"

text \<open>The constructor: \<^verbatim>\<open>if (!id) throw new errors.InvalidValue(...)\<close>, then the
  three arguments are stored.\<close>

fun Ref_new :: "id_arg \<Rightarrow> ref option \<Rightarrow> ref option \<Rightarrow> error + ref" where
  "Ref_new (IdString s) clazz database =
     (if falsy_id (IdString s) then Inl (InvalidValue ''id cannot be null or undefined'')
      else Inr (Ref s clazz database))"
| "Ref_new i clazz database = Inl (InvalidValue ''id cannot be null or undefined'')"

text \<open>
  \<^verbatim>\<open>equals(other)\<close>. The argument is \<open>None\<close> when the caller passes \<^verbatim>\<open>undefined\<close>
  (as the recursive calls do with an absent field): \<^verbatim>\<open>other instanceof Ref\<close> is then
  false. \<^verbatim>\<open>&&\<close> and \<^verbatim>\<open>||\<close> evaluate left to right and stop early;
  \<^verbatim>\<open>this.class.equals\<close> with \<^verbatim>\<open>this.class\<close> undefined is a TypeError.
\<close>

fun equals :: "ref \<Rightarrow> ref option \<Rightarrow> error + bool" where
  "equals (Ref i c d) None = Inr False"
| "equals (Ref i c d) (Some (Ref i' c' d')) =
     (if i \<noteq> i' then Inr False
      else
        (case (if c = None \<and> c' = None then Inr True
               else (case c of None \<Rightarrow> Inl TypeError | Some cr \<Rightarrow> equals cr c')) of
           Inl e \<Rightarrow> Inl e
         | Inr False \<Rightarrow> Inr False
         | Inr True \<Rightarrow>
             (if d = None \<and> d' = None then Inr True
              else (case d of None \<Rightarrow> Inl TypeError | Some dr \<Rightarrow> equals dr d'))))"

text \<open>The invariant of the data model: the id of a reference, and of every reference
  reachable through \<^verbatim>\<open>class\<close> and \<^verbatim>\<open>database\<close>, is non-empty.\<close>

fun nonempty_ids :: "ref \<Rightarrow> bool" where
  "nonempty_ids (Ref i c d) =
     (i \<noteq> [] \<and> (case c of None \<Rightarrow> True | Some r \<Rightarrow> nonempty_ids r)
            \<and> (case d of None \<Rightarrow> True | Some r \<Rightarrow> nonempty_ids r))"

section \<open>Host values\<close>

text \<open>
  The values of the host language that the driver inspects with \<^verbatim>\<open>typeof\<close>,
  \<^verbatim>\<open>instanceof\<close> and \<^verbatim>\<open>Array.isArray\<close>, and the instances of its own classes.

  \<^item> A number is an integer from \<open>- 2 ^ 53\<close> up to \<open>2 ^ 53 - 1\<close>, held as a signed
    word of 54 bits: each of them is a number of the host language, and prints as
    its decimal digits. The other numbers are outside this development; the driver
    does no arithmetic.
  \<^item> A symbol is its description.
  \<^item> A plain object is the list of its own enumerable properties in the order of
    \<^verbatim>\<open>Object.keys\<close>; keys are distinct. The properties are data properties: a
    read returns the value (accessor properties and proxies are outside this
    development). The prototype is not recorded: the objects handed to the driver
    have the prototype \<^verbatim>\<open>Object.prototype\<close>.
  \<^item> A callable is observed by the driver in two ways only: the parameter names that
    \<^verbatim>\<open>fn-annotate\<close> reports, and what happens when the callable is applied to the
    \<^verbatim>\<open>Var\<close> nodes of those names: it returns a value (\<open>JFunction names result\<close>)
    or it raises (\<open>JThrowing names e\<close>).
  \<^item> \<open>JExpr raw\<close> is \<^verbatim>\<open>new Expr(raw)\<close>; \<open>JRef\<close>, \<open>JSetRef\<close>, \<open>JFaunaTime\<close>,
    \<open>JFaunaDate\<close>, \<open>JBytes\<close> and \<open>JQuery\<close> are the instances of the subclasses of
    \<^verbatim>\<open>Value\<close> (which extends \<^verbatim>\<open>Expr\<close>), each holding its \<^verbatim>\<open>value\<close> field.
\<close>

type_synonym byte = "8 word"

datatype jsval =
    JUndefined
  | JNull
  | JBool bool
  | JNum "54 word"
  | JStr string
  | JSymbol string
  | JArray "jsval list"
  | JObject "(string \<times> jsval) list"
  | JFunction "string list" jsval
  | JThrowing "string list" error
  | JUint8Array "byte list"
  | JArrayBuffer "byte list"
  | JExpr jsval
  | JRef ref
  | JSetRef jsval
  | JFaunaTime string
  | JFaunaDate string
  | JBytes "byte list"
  | JQuery jsval

text \<open>\<^verbatim>\<open>obj instanceof Expr\<close>.\<close>

fun instanceof_Expr :: "jsval \<Rightarrow> bool" where
  "instanceof_Expr (JExpr r) = True"
| "instanceof_Expr (JRef r) = True"
| "instanceof_Expr (JSetRef v) = True"
| "instanceof_Expr (JFaunaTime s) = True"
| "instanceof_Expr (JFaunaDate s) = True"
| "instanceof_Expr (JBytes bs) = True"
| "instanceof_Expr (JQuery v) = True"
| "instanceof_Expr v = False"

text \<open>The \<^verbatim>\<open>value\<close> field of a \<^verbatim>\<open>Ref\<close>: \<^verbatim>\<open>{ id, class: clazz, database }\<close>.\<close>

definition opt_ref :: "ref option \<Rightarrow> jsval" where
  "opt_ref r = (case r of None \<Rightarrow> JUndefined | Some x \<Rightarrow> JRef x)"

definition ref_value :: "ref \<Rightarrow> jsval" where
  "ref_value r = JObject [(''id'', JStr (ref_id r)), (''class'', opt_ref (ref_class r)),
                          (''database'', opt_ref (ref_database r))]"

text \<open>
  The \<^verbatim>\<open>raw\<close> field that the \<^verbatim>\<open>Expr\<close> constructor stores: each subclass passes
  its own argument to \<^verbatim>\<open>super\<close> (\<^verbatim>\<open>Ref\<close> passes \<^verbatim>\<open>{}\<close>).
\<close>

fun raw :: "jsval \<Rightarrow> jsval" where
  "raw (JExpr r) = r"
| "raw (JRef r) = JObject []"
| "raw (JSetRef v) = v"
| "raw (JFaunaTime s) = JStr s"
| "raw (JFaunaDate s) = JStr s"
| "raw (JBytes bs) = JUint8Array bs"
| "raw (JQuery v) = v"
| "raw v = JUndefined"

text \<open>
  \<^verbatim>\<open>toJSON()\<close> of \<^verbatim>\<open>Expr\<close> and of its subclasses. \<^verbatim>\<open>Bytes.toJSON\<close> needs the
  base64 library, which is not part of the repository; it is left out (\<open>None\<close>), as are
  the values that have no such method.
\<close>

fun toJSON :: "jsval \<Rightarrow> jsval option" where
  "toJSON (JExpr r) = Some r"
| "toJSON (JRef r) = Some (JObject [(''@ref'', ref_value r)])"
| "toJSON (JSetRef v) = Some (JObject [(''@set'', v)])"
| "toJSON (JFaunaTime s) = Some (JObject [(''@ts'', JStr s)])"
| "toJSON (JFaunaDate s) = Some (JObject [(''@date'', JStr s)])"
| "toJSON (JQuery v) = Some (JObject [(''@query'', v)])"
| "toJSON v = None"


section \<open>Properties of plain objects\<close>

text \<open>
  The host language lists the own keys of an object with the array indices first, in
  ascending order, and the other keys after them in the order of their creation. An
  array index is the decimal form, without leading zeros, of an integer below
  \<open>2 ^ 32 - 1\<close>.
\<close>

definition is_digit :: "char \<Rightarrow> bool" where
  "is_digit c = ((48::int) \<le> of_char c \<and> of_char c \<le> (57::int))"

definition digits_value :: "string \<Rightarrow> int" where
  "digits_value s = foldl (\<lambda>n c. 10 * n + (of_char c - 48)) 0 s"

definition array_index :: "string \<Rightarrow> int option" where
  "array_index key =
     (if key \<noteq> [] \<and> list_all is_digit key \<and> (key = ''0'' \<or> hd key \<noteq> CHR ''0'')
         \<and> digits_value key < 4294967295
      then Some (digits_value key) else None)"

text \<open>The place of a new key that is the array index \<open>i\<close>: before the first key
  that is a greater index or no index.\<close>

fun insert_index :: "int \<Rightarrow> string \<Rightarrow> 'a \<Rightarrow> (string \<times> 'a) list \<Rightarrow> (string \<times> 'a) list" where
  "insert_index i key v [] = [(key, v)]"
| "insert_index i key v (p # ps) =
     (case array_index (fst p) of
        Some j \<Rightarrow> if j < i then p # insert_index i key v ps else (key, v) # p # ps
      | None \<Rightarrow> (key, v) # p # ps)"

text \<open>
  The assignment \<^verbatim>\<open>obj[key] = v\<close> on the property list of a plain object. A key
  the object has keeps its place. A new key is created at its place in the order of
  keys, except \<^verbatim>\<open>__proto__\<close>: that assignment goes to the setter which
  \<^verbatim>\<open>Object.prototype\<close> has under this name, and no property is created. (When
  \<open>v\<close> is an object or \<^verbatim>\<open>null\<close> the setter makes it the prototype of the
  object. This changes no own property; what the object inherits from then on is
  not recorded, and the general properties below that depend on it are stated for
  objects without a key \<^verbatim>\<open>__proto__\<close>.)
\<close>

definition put :: "string \<Rightarrow> 'a \<Rightarrow> (string \<times> 'a) list \<Rightarrow> (string \<times> 'a) list" where
  "put key v obj =
     (if key \<in> fst ` set obj then AList.update key v obj
      else if key = ''__proto__'' then obj
      else (case array_index key of
              Some i \<Rightarrow> insert_index i key v obj
            | None \<Rightarrow> obj @ [(key, v)]))"

text \<open>The assignments \<^verbatim>\<open>target[key] = v\<close> for the pairs of a list, in order.\<close>

definition put_all :: "(string \<times> 'a) list \<Rightarrow> (string \<times> 'a) list \<Rightarrow> (string \<times> 'a) list" where
  "put_all kvs target = fold (\<lambda>kv obj. put (fst kv) (snd kv) obj) kvs target"

section \<open>Timestamps (src/values.ts, class FaunaTime)\<close>

text \<open>
  The constructor takes \<^verbatim>\<open>Date | string\<close>. A \<^verbatim>\<open>Date\<close> is represented by what its
  \<^verbatim>\<open>toISOString()\<close> returns. \<^verbatim>\<open>value.charAt(value.length - 1)\<close> is the last
  character, or the empty string when \<^verbatim>\<open>value\<close> is empty.
\<close>

datatype time_arg = DateArg string | StringArg string

definition charAt_last :: "string \<Rightarrow> string" where
  "charAt_last v = (if v = [] then [] else [last v])"

fun FaunaTime_new :: "time_arg \<Rightarrow> error + jsval" where
  "FaunaTime_new (DateArg isoString) = Inr (JFaunaTime isoString)"
| "FaunaTime_new (StringArg v) =
     (if \<not> (charAt_last v = ''Z'')
      then Inl (InvalidValue (''Only allowed timezone is 'Z', got: '' @ v))
      else Inr (JFaunaTime v))"

section \<open>Arity checks (query module)\<close>

text \<open>
  \<^verbatim>\<open>arity(min, max, args)\<close>: a \<^verbatim>\<open>null\<close> bound is \<open>None\<close>; \<open>args\<close> is the
  \<^verbatim>\<open>arguments\<close> object of the calling constructor, of which only the length is read.
\<close>

definition arity :: "nat option \<Rightarrow> nat option \<Rightarrow> 'a list \<Rightarrow> error + unit" where
  "arity min' max' args =
     (if (case min' of None \<Rightarrow> False | Some lo \<Rightarrow> length args < lo)
         \<or> (case max' of None \<Rightarrow> False | Some hi \<Rightarrow> length args > hi)
      then Inl (InvalidArity min' max' (length args))
      else Inr ())"

definition arity_exact :: "nat \<Rightarrow> 'a list \<Rightarrow> error + unit" where
  "arity_exact n args = arity (Some n) (Some n) args"

definition arity_max :: "nat \<Rightarrow> 'a list \<Rightarrow> error + unit" where
  "arity_max n args = arity None (Some n) args"

definition arity_min :: "nat \<Rightarrow> 'a list \<Rightarrow> error + unit" where
  "arity_min n args = arity (Some n) None args"

definition arity_between :: "nat \<Rightarrow> nat \<Rightarrow> 'a list \<Rightarrow> error + unit" where
  "arity_between min' max' args = arity (Some min') (Some max') args"

section \<open>Wrapping host values (query module)\<close>

text \<open>Running a list of computations in order: the first exception ends the run.\<close>

fun sequence :: "(error + 'a) list \<Rightarrow> error + 'a list" where
  "sequence [] = Inr []"
| "sequence (x # xs) =
     (case x of
        Inl e \<Rightarrow> Inl e
      | Inr v \<Rightarrow> (case sequence xs of Inl e \<Rightarrow> Inl e | Inr vs \<Rightarrow> Inr (v # vs)))"

text \<open>
  \<^verbatim>\<open>str.replace(/Symbol\((.*)\)/, function(str, symbol) { return symbol; })\<close>:
  the leftmost match is replaced by its group. At a position where \<^verbatim>\<open>Symbol(\<close>
  starts, \<^verbatim>\<open>.*\<close> takes the characters up to the next line terminator and gives
  back as few as needed for \<^verbatim>\<open>)\<close> to follow, so the group ends at the last
  \<^verbatim>\<open>)\<close> before the line terminator.
\<close>

definition lineTerminator :: "char \<Rightarrow> bool" where
  "lineTerminator c = (c = CHR 0x0A \<or> c = CHR 0x0D)"

definition lastIndexOf :: "char \<Rightarrow> string \<Rightarrow> nat" where
  "lastIndexOf c s = length s - 1 - length (takeWhile (\<lambda>x. x \<noteq> c) (rev s))"

fun symbol_replace :: "string \<Rightarrow> string" where
  "symbol_replace [] = []"
| "symbol_replace (c # cs) =
     (if take 7 (c # cs) = ''Symbol(''
      then (let rest = drop 7 (c # cs);
                run = takeWhile (\<lambda>x. \<not> lineTerminator x) rest
            in if CHR 0x29 \<in> set run
               then take (lastIndexOf (CHR 0x29) run) rest
                      @ drop (Suc (lastIndexOf (CHR 0x29) run)) rest
               else c # symbol_replace cs)
      else c # symbol_replace cs)"

text \<open>\<^verbatim>\<open>Symbol.prototype.toString\<close>.\<close>

definition symbol_toString :: "string \<Rightarrow> string" where
  "symbol_toString description = ''Symbol('' @ description @ '')''"

text \<open>
  \<^verbatim>\<open>wrap(obj)\<close>, one equation for each branch of the source, in its order:
  \<^verbatim>\<open>null\<close>; an instance of \<^verbatim>\<open>Expr\<close>; a symbol; a callable; an array; a byte buffer
  (\<^verbatim>\<open>new values.Bytes(obj)\<close>, whose constructor accepts both buffer types without
  raising); any other object; anything else. The check \<^verbatim>\<open>arity.exact(1, arguments)\<close>
  at the head of the source function always passes here, where \<open>wrap\<close> has one argument.

  The branch for a callable is \<^verbatim>\<open>Lambda(obj)\<close> unfolded through \<^verbatim>\<open>_lambdaFunc\<close> and
  \<^verbatim>\<open>_lambdaExpr\<close> (lemma \<open>wrap_function\<close> below relates it to those functions):
  a callable without parameters is refused before it is applied; any other callable
  is applied, and an exception it raises is the exception of \<^verbatim>\<open>wrap\<close>. The
  branch for an object is \<^verbatim>\<open>new Expr({ object: wrapValues(obj) })\<close> with
  \<^verbatim>\<open>wrapValues\<close> unfolded (lemma \<open>wrap_object\<close>): the values are wrapped in the
  order of the keys, and each is assigned under its key to the object \<^verbatim>\<open>rv\<close>,
  which starts as \<^verbatim>\<open>{}\<close>.
\<close>

fun wrap :: "jsval \<Rightarrow> error + jsval" where
  "wrap JNull = Inr JNull"
| "wrap (JExpr r) = Inr (JExpr r)"
| "wrap (JRef r) = Inr (JRef r)"
| "wrap (JSetRef v) = Inr (JSetRef v)"
| "wrap (JFaunaTime s) = Inr (JFaunaTime s)"
| "wrap (JFaunaDate s) = Inr (JFaunaDate s)"
| "wrap (JBytes bs) = Inr (JBytes bs)"
| "wrap (JQuery v) = Inr (JQuery v)"
| "wrap (JSymbol description) = Inr (JStr (symbol_replace (symbol_toString description)))"
| "wrap (JFunction vars result) =
     (case vars of
        [] \<Rightarrow> Inl (InvalidValue ''Provided Function must take at least 1 argument.'')
      | [v] \<Rightarrow>
          (case wrap result of
             Inl e \<Rightarrow> Inl e
           | Inr ex \<Rightarrow> Inr (JExpr (JObject [(''lambda'', JStr v), (''expr'', ex)])))
      | _ \<Rightarrow>
          (case wrap result of
             Inl e \<Rightarrow> Inl e
           | Inr ex \<Rightarrow>
               Inr (JExpr (JObject [(''lambda'', JExpr (JArray (map JStr vars))),
                                     (''expr'', ex)]))))"
| "wrap (JThrowing vars e) =
     (case vars of
        [] \<Rightarrow> Inl (InvalidValue ''Provided Function must take at least 1 argument.'')
      | _ \<Rightarrow> Inl e)"
| "wrap (JArray xs) =
     (case sequence (map wrap xs) of
        Inl e \<Rightarrow> Inl e
      | Inr ys \<Rightarrow> Inr (JExpr (JArray ys)))"
| "wrap (JUint8Array bs) = Inr (JBytes bs)"
| "wrap (JArrayBuffer bs) = Inr (JBytes bs)"
| "wrap (JObject kvs) =
     (case sequence (map (\<lambda>kv. wrap (snd kv)) kvs) of
        Inl e \<Rightarrow> Inl e
      | Inr vs \<Rightarrow>
          Inr (JExpr (JObject [(''object'', JObject (put_all (zip (map fst kvs) vs) []))])))"
| "wrap v = Inr v"

section \<open>Rendering (class Expr)\<close>

text \<open>\<^verbatim>\<open>Number.prototype.toString\<close> on an integer of magnitude up to \<open>2 ^ 53\<close>:
  decimal digits, with a sign.\<close>

fun nat_toString :: "nat \<Rightarrow> string" where
  "nat_toString n =
     (if n < 10 then [char_of (48 + n)]
      else nat_toString (n div 10) @ [char_of (48 + n mod 10)])"

definition int_toString :: "int \<Rightarrow> string" where
  "int_toString i = (if i < 0 then ''-'' @ nat_toString (nat (- i)) else nat_toString (nat i))"

text \<open>
  \<^verbatim>\<open>Object.keys(v)\<close> together with the values \<^verbatim>\<open>v[k]\<close>: the own enumerable
  properties. \<^verbatim>\<open>undefined\<close> and \<^verbatim>\<open>null\<close> raise a TypeError; strings, arrays and
  typed arrays have their indices; an instance of \<^verbatim>\<open>Expr\<close> has \<^verbatim>\<open>raw\<close>, set by
  the \<^verbatim>\<open>Expr\<close> constructor, and an instance of a \<^verbatim>\<open>Value\<close> subclass has
  \<^verbatim>\<open>value\<close> after it; the other values have none.
\<close>

fun indexed :: "nat \<Rightarrow> 'a list \<Rightarrow> (string \<times> 'a) list" where
  "indexed i [] = []"
| "indexed i (x # xs) = (nat_toString i, x) # indexed (Suc i) xs"

fun own_fields :: "jsval \<Rightarrow> error + (string \<times> jsval) list" where
  "own_fields JUndefined = Inl TypeError"
| "own_fields JNull = Inl TypeError"
| "own_fields (JStr s) = Inr (indexed 0 (map (\<lambda>c. JStr [c]) s))"
| "own_fields (JArray xs) = Inr (indexed 0 xs)"
| "own_fields (JObject kvs) = Inr kvs"
| "own_fields (JUint8Array bs) = Inr (indexed 0 (map (\<lambda>b. JNum (ucast b)) bs))"
| "own_fields (JExpr r) = Inr [(''raw'', r)]"
| "own_fields (JRef r) = Inr [(''raw'', JObject []), (''value'', ref_value r)]"
| "own_fields (JSetRef v) = Inr [(''raw'', v), (''value'', v)]"
| "own_fields (JFaunaTime s) = Inr [(''raw'', JStr s), (''value'', JStr s)]"
| "own_fields (JFaunaDate s) = Inr [(''raw'', JStr s), (''value'', JStr s)]"
| "own_fields (JBytes bs) = Inr [(''raw'', JUint8Array bs), (''value'', JUint8Array bs)]"
| "own_fields (JQuery v) = Inr [(''raw'', v), (''value'', v)]"
| "own_fields v = Inr []"

text \<open>A measure for the recursion of the renderer: every own property of a value
  that is not a string weighs less than the value, and so does the \<^verbatim>\<open>raw\<close> field.\<close>

fun ref_weight :: "ref \<Rightarrow> nat" where
  "ref_weight (Ref i c d) =
     length i + 4 + (case c of None \<Rightarrow> 1 | Some r \<Rightarrow> ref_weight r)
                  + (case d of None \<Rightarrow> 1 | Some r \<Rightarrow> ref_weight r)"

fun weight :: "jsval \<Rightarrow> nat" where
  "weight (JStr s) = 1 + length s"
| "weight (JArray xs) = 1 + sum_list (map weight xs)"
| "weight (JObject kvs) = 1 + sum_list (map (\<lambda>kv. weight (snd kv)) kvs)"
| "weight (JFunction vars result) = 1 + weight result"
| "weight (JUint8Array bs) = 2"
| "weight (JExpr r) = 1 + weight r"
| "weight (JRef r) = ref_weight r"
| "weight (JSetRef v) = 1 + weight v"
| "weight (JFaunaTime s) = 2 + length s"
| "weight (JFaunaDate s) = 2 + length s"
| "weight (JBytes bs) = 3"
| "weight (JQuery v) = 1 + weight v"
| "weight v = 1"

text \<open>
  \<^verbatim>\<open>str.charAt(0).toUpperCase() + str.slice(1)\<close>, on the letters a to z (the function
  tags of the query language are ASCII); \<^verbatim>\<open>fn.split('_')\<close>; \<^verbatim>\<open>array.join(sep)\<close>.
\<close>

definition toUpperCase :: "char \<Rightarrow> char" where
  "toUpperCase c =
     (if (97::nat) \<le> of_char c \<and> of_char c \<le> (122::nat)
      then char_of (of_char c - (32::nat)) else c)"

definition capitalize :: "string \<Rightarrow> string" where
  "capitalize str = (case str of [] \<Rightarrow> [] | c # cs \<Rightarrow> toUpperCase c # cs)"

fun split :: "char \<Rightarrow> string \<Rightarrow> string list" where
  "split sep [] = [[]]"
| "split sep (c # cs) =
     (if c = sep then [] # split sep cs
      else (case split sep cs of [] \<Rightarrow> [[c]] | w # ws \<Rightarrow> (c # w) # ws))"

fun join :: "string \<Rightarrow> string list \<Rightarrow> string" where
  "join sep [] = []"
| "join sep [s] = s"
| "join sep (s # t # ts) = s @ sep @ join sep (t # ts)"

definition varArgsFunctions :: "string list" where
  "varArgsFunctions =
     [''Do'', ''Call'', ''Union'', ''Intersection'', ''Difference'', ''Equals'', ''Add'',
      ''Multiply'', ''Subtract'', ''Divide'', ''Modulo'', ''LT'', ''LTE'', ''GT'', ''GTE'',
      ''And'', ''Or'']"

definition specialCases :: "(string \<times> string) list" where
  "specialCases =
     [(''is_nonempty'', ''is_non_empty''), (''lt'', ''LT''), (''lte'', ''LTE''),
      (''gt'', ''GT''), (''gte'', ''GTE'')]"

definition Object_prototype_names :: "string list" where
  "Object_prototype_names =
     [''constructor'', ''__defineGetter__'', ''__defineSetter__'', ''hasOwnProperty'',
      ''__lookupGetter__'', ''__lookupSetter__'', ''isPrototypeOf'',
      ''propertyIsEnumerable'', ''toString'', ''valueOf'', ''__proto__'',
      ''toLocaleString'']"

text \<open>
  The name the renderer prints for the function tag \<^verbatim>\<open>fn\<close>:
  \<^verbatim>\<open>if (fn in specialCases) fn = specialCases[fn]\<close>, then every segment between
  underscores capitalised. \<^verbatim>\<open>in\<close> also finds the properties that \<^verbatim>\<open>specialCases\<close>
  inherits from \<^verbatim>\<open>Object.prototype\<close>; \<^verbatim>\<open>fn\<close> is then not a string and
  \<^verbatim>\<open>fn.split\<close> is a TypeError.
\<close>

definition functionName :: "string \<Rightarrow> error + string" where
  "functionName fn =
     (if fn \<in> set (map fst specialCases)
      then Inr (concat (map capitalize (split (CHR ''_'') (the (map_of specialCases fn)))))
      else if fn \<in> set Object_prototype_names then Inl TypeError
      else Inr (concat (map capitalize (split (CHR ''_'') fn))))"

text \<open>
  \<^verbatim>\<open>Expr.toString(expr, caller)\<close>. An instance of \<^verbatim>\<open>Expr\<close> is replaced by its
  \<^verbatim>\<open>raw\<close> field, once. The last branch is the source's code after
  \<^verbatim>\<open>Array.isArray\<close>: the first key is the function tag; an object without keys has
  \<^verbatim>\<open>keys[0]\<close> undefined, and \<^verbatim>\<open>fn.split\<close> raises a TypeError.
\<close>

function toString :: "jsval \<Rightarrow> string option \<Rightarrow> error + string" where
  "toString expr0 caller =
     (let expr = (if instanceof_Expr expr0 then raw expr0 else expr0) in
      case expr of
        JStr s \<Rightarrow> Inr ([CHR 0x22] @ s @ [CHR 0x22])
      | JSymbol description \<Rightarrow> Inr (symbol_toString description)
      | JNum n \<Rightarrow> Inr (int_toString (sint n))
      | JBool b \<Rightarrow> Inr (if b then ''true'' else ''false'')
      | JUndefined \<Rightarrow> Inr ''undefined''
      | JNull \<Rightarrow> Inr ''null''
      | JArray items \<Rightarrow>
          (case sequence (map (\<lambda>item. toString item None) items) of
             Inl e \<Rightarrow> Inl e
           | Inr strs \<Rightarrow>
               Inr (if caller \<in> set (map Some varArgsFunctions)
                    then join '', '' strs
                    else ''['' @ join '', '' strs @ '']''))
      | _ \<Rightarrow>
          (case own_fields expr of
             Inl e \<Rightarrow> Inl e
           | Inr [] \<Rightarrow> Inl TypeError
           | Inr ((key0, val0) # rest) \<Rightarrow>
               if key0 = ''object''
               then (case own_fields val0 of
                       Inl e \<Rightarrow> Inl e
                     | Inr fields \<Rightarrow>
                         (case sequence (map (\<lambda>kv. case toString (snd kv) None of
                                                     Inl e \<Rightarrow> Inl e
                                                   | Inr s \<Rightarrow> Inr (fst kv @ '': '' @ s)) fields) of
                            Inl e \<Rightarrow> Inl e
                          | Inr strs \<Rightarrow> Inr (''{'' @ join '', '' strs @ ''}'')))
               else (case functionName key0 of
                       Inl e \<Rightarrow> Inl e
                     | Inr fn \<Rightarrow>
                         (case sequence (map (\<lambda>kv. toString (snd kv) (Some fn))
                                              ((key0, val0) # rest)) of
                            Inl e \<Rightarrow> Inl e
                          | Inr args \<Rightarrow> Inr (fn @ ''('' @ join '', '' args @ '')'')))))"
  by pat_completeness auto
termination
proof -
  have idx: "snd ` set (indexed i xs) = set xs" for xs :: "jsval list" and i
    by (induction xs arbitrary: i) auto
  have mem: "x \<in> set xs \<Longrightarrow> weight x \<le> sum_list (map weight xs)" for x xs
    by (induction xs) auto
  have mems: "kv \<in> set kvs \<Longrightarrow> weight (snd kv) \<le> sum_list (map (\<lambda>kv. weight (snd kv)) kvs)"
    for kv :: "string \<times> jsval" and kvs
    by (induction kvs) auto
  have unwrap: "weight (if instanceof_Expr v then raw v else v) \<le> weight v" for v
  proof (cases v)
    case (JRef r)
    then show ?thesis by (cases r) simp
  qed simp_all
  have le: "weight (snd kv) \<le> weight v"
    if f: "own_fields v = Inr fs" and k: "kv \<in> set fs" for v fs and kv :: "string \<times> jsval"
  proof -
    from k have s: "snd kv \<in> snd ` set fs" by simp
    show "weight (snd kv) \<le> weight v"
    proof (cases v)
      case (JStr str)
      with f s idx[of 0 "map (\<lambda>c. JStr [c]) str"] have "snd kv \<in> set (map (\<lambda>c. JStr [c]) str)" by simp
      then obtain c where "snd kv = JStr [c]" "c \<in> set str" by auto
      then have "str \<noteq> []" "weight (snd kv) = 2" by auto
      with JStr show ?thesis by (cases str) auto
    next
      case (JArray xs)
      with f s idx[of 0 xs] have "snd kv \<in> set xs" by simp
      from mem[OF this] JArray show ?thesis by simp
    next
      case (JObject kvs)
      with f k mems[of kv kvs] show ?thesis by simp
    next
      case (JUint8Array bs)
      with f s idx[of 0 "map (\<lambda>b. JNum (ucast b)) bs"] show ?thesis by auto
    next
      case (JRef r)
      with f k show ?thesis by (cases r) (auto simp: ref_value_def opt_ref_def split: option.splits)
    qed (use f k in auto)
  qed
  have less: "weight (snd kv) < weight v"
    if f: "own_fields v = Inr fs" and k: "kv \<in> set fs" and n: "\<forall>s. v \<noteq> JStr s"
    for v fs and kv :: "string \<times> jsval"
  proof -
    from k have s: "snd kv \<in> snd ` set fs" by simp
    show "weight (snd kv) < weight v"
    proof (cases v)
      case (JArray xs)
      with f s idx[of 0 xs] have "snd kv \<in> set xs" by simp
      from mem[OF this] JArray show ?thesis by simp
    next
      case (JObject kvs)
      with f k mems[of kv kvs] show ?thesis by simp
    next
      case (JUint8Array bs)
      with f s idx[of 0 "map (\<lambda>b. JNum (ucast b)) bs"] show ?thesis by auto
    next
      case (JRef r)
      with f k show ?thesis by (cases r) (auto simp: ref_value_def opt_ref_def split: option.splits)
    qed (use f k n in auto)
  qed
  have inner: "((snd xb, c'), e, c) \<in> measure (\<lambda>(e, c). weight e)"
    if "x = (if instanceof_Expr e then raw e else e)" and "x = x'" and "own_fields x = Inr b"
      and "b = x21 # x22" and "(xa, y) = x21" and "own_fields y = Inr ba" and "xb \<in> set ba"
      and "\<forall>s. x' \<noteq> JStr s"
    for x x' e b x21 x22 xa y ba c c' and xb :: "string \<times> jsval"
  proof -
    from that(4,5) have "(xa, y) \<in> set b" by auto
    from less[OF that(3) this] that(2,8) le[OF that(6,7)] unwrap[of e] that(1)
    show ?thesis by simp
  qed
  have outer: "((snd xb, c'), e, c) \<in> measure (\<lambda>(e, c). weight e)"
    if "x = (if instanceof_Expr e then raw e else e)" and "x = x'" and "own_fields x = Inr b"
      and "b = x21 # x22" and "(xa, y) = x21" and "xb \<in> set ((xa, y) # x22)"
      and "\<forall>s. x' \<noteq> JStr s"
    for x x' e b x21 x22 xa y c c' and xb :: "string \<times> jsval"
  proof -
    from that(4,5,6) have "xb \<in> set b" by auto
    from less[OF that(3) this] that(2,7) unwrap[of e] that(1)
    show ?thesis by simp
  qed
  show ?thesis
  proof (relation "measure (\<lambda>(e, c). weight e)", goal_cases)
    case 1
    show ?case by simp
  next
    case (2 expr0 caller x x7 xa)
    from 2(1,2) have "weight (if instanceof_Expr expr0 then raw expr0 else expr0)
        = 1 + sum_list (map weight x7)"
      by (metis weight.simps(2))
    with mem[OF 2(3)] unwrap[of expr0] show ?case by simp
  qed ((rule inner, assumption, assumption, assumption, assumption, assumption, assumption,
          assumption, simp (no_asm))
       | (rule outer, assumption, assumption, assumption, assumption, assumption, assumption,
          simp (no_asm)))+
qed

declare toString.simps [simp del]

section \<open>Query constructors (query module)\<close>

text \<open>Sequencing of computations that may raise.\<close>

definition and_then :: "error + 'a \<Rightarrow> ('a \<Rightarrow> error + 'b) \<Rightarrow> error + 'b" where
  "and_then m f = (case m of Inl e \<Rightarrow> Inl e | Inr x \<Rightarrow> f x)"

text \<open>
  A constructor receives the list of its actual arguments (\<^verbatim>\<open>arguments\<close>); a declared
  parameter beyond them is \<^verbatim>\<open>undefined\<close>.
\<close>

definition arg :: "jsval list \<Rightarrow> nat \<Rightarrow> jsval" where
  "arg args i = (if i < length args then args ! i else JUndefined)"

text \<open>The values that \<^verbatim>\<open>||\<close> and \<^verbatim>\<open>!\<close> treat as false.\<close>

fun falsy :: "jsval \<Rightarrow> bool" where
  "falsy JUndefined = True"
| "falsy JNull = True"
| "falsy (JBool b) = (\<not> b)"
| "falsy (JNum n) = (n = 0)"
| "falsy (JStr s) = (s = [])"
| "falsy v = False"

text \<open>
  \<^verbatim>\<open>Object.assign(target, source)\<close> on the property list of the target: every own
  enumerable property of the source is assigned to the target, in the order of the
  source's keys; a source that is \<^verbatim>\<open>undefined\<close> or \<^verbatim>\<open>null\<close> is skipped.
\<close>

definition Object_assign :: "(string \<times> jsval) list \<Rightarrow> jsval \<Rightarrow> (string \<times> jsval) list" where
  "Object_assign target source =
     (case own_fields source of
        Inl e \<Rightarrow> target
      | Inr kvs \<Rightarrow> put_all kvs target)"

text \<open>\<^verbatim>\<open>wrapValues(obj)\<close>: \<^verbatim>\<open>rv[key] = wrap(obj[key])\<close> for each key of \<^verbatim>\<open>obj\<close>,
  in the order of \<^verbatim>\<open>Object.keys(obj)\<close>, on \<^verbatim>\<open>rv = {}\<close>; the first \<^verbatim>\<open>wrap\<close>
  that raises ends it.\<close>

definition wrapValues :: "jsval \<Rightarrow> error + jsval" where
  "wrapValues obj =
     (if obj \<noteq> JNull
      then and_then (own_fields obj) (\<lambda>kvs.
           and_then (sequence (map (\<lambda>kv. wrap (snd kv)) kvs)) (\<lambda>vs.
           Inr (JObject (put_all (zip (map fst kvs) vs) []))))
      else Inr JNull)"

definition Var :: "jsval list \<Rightarrow> error + jsval" where
  "Var args =
     and_then (arity_exact 1 args) (\<lambda>_.
     and_then (wrap (arg args 0)) (\<lambda>v.
     Inr (JExpr (JObject [(''var'', v)]))))"

definition lambdaExpr :: "jsval \<Rightarrow> jsval \<Rightarrow> error + jsval" where
  "lambdaExpr var_name expr =
     and_then (wrap var_name) (\<lambda>l.
     and_then (wrap expr) (\<lambda>ex.
     Inr (JExpr (JObject [(''lambda'', l), (''expr'', ex)]))))"

text \<open>
  \<^verbatim>\<open>_lambdaFunc(func)\<close>: \<open>vars\<close> is what \<^verbatim>\<open>fn-annotate\<close> reports. With no
  parameter the function is refused. Otherwise \<^verbatim>\<open>func\<close> is applied to the
  \<^verbatim>\<open>Var\<close> nodes of \<open>vars\<close> while the arguments of \<^verbatim>\<open>_lambdaExpr\<close> are
  evaluated: what it raises ends the call, what it returns is the second argument.
  On a value that is no callable, \<^verbatim>\<open>fn-annotate\<close> raises an \<^verbatim>\<open>Error\<close> of its own.
\<close>

definition lambdaFunc :: "jsval \<Rightarrow> error + jsval" where
  "lambdaFunc func =
     (case func of
        JFunction vars result \<Rightarrow>
          (case vars of
             [] \<Rightarrow> Inl (InvalidValue ''Provided Function must take at least 1 argument.'')
           | [v] \<Rightarrow> lambdaExpr (JStr v) result
           | _ \<Rightarrow> lambdaExpr (JArray (map JStr vars)) result)
      | JThrowing vars e \<Rightarrow>
          (case vars of
             [] \<Rightarrow> Inl (InvalidValue ''Provided Function must take at least 1 argument.'')
           | _ \<Rightarrow> Inl e)
      | _ \<Rightarrow> Inl PlainError)"

text \<open>\<^verbatim>\<open>typeof value === 'function'\<close>.\<close>

fun is_function :: "jsval \<Rightarrow> bool" where
  "is_function (JFunction vars result) = True"
| "is_function (JThrowing vars e) = True"
| "is_function v = False"

definition Lambda :: "jsval list \<Rightarrow> error + jsval" where
  "Lambda args =
     and_then (arity_between 1 2 args) (\<lambda>_.
     case args of
       [v] \<Rightarrow>
         if is_function v then lambdaFunc v
         else if instanceof_Expr v then Inr v
         else Inl (InvalidValue ''Lambda function takes either a Function or an Expr.'')
     | _ \<Rightarrow> lambdaExpr (arg args 0) (arg args 1))"

text \<open>\<^verbatim>\<open>Map(collection, lambda_expr)\<close> and \<^verbatim>\<open>Filter(collection, lambda_expr)\<close>: the
  properties of the object literal are evaluated in the order written.\<close>

definition Map :: "jsval list \<Rightarrow> error + jsval" where
  "Map args =
     and_then (arity_exact 2 args) (\<lambda>_.
     and_then (wrap (arg args 1)) (\<lambda>l.
     and_then (wrap (arg args 0)) (\<lambda>c.
     Inr (JExpr (JObject [(''map'', l), (''collection'', c)])))))"

definition Filter :: "jsval list \<Rightarrow> error + jsval" where
  "Filter args =
     and_then (arity_exact 2 args) (\<lambda>_.
     and_then (wrap (arg args 1)) (\<lambda>l.
     and_then (wrap (arg args 0)) (\<lambda>c.
     Inr (JExpr (JObject [(''filter'', l), (''collection'', c)])))))"

text \<open>\<^verbatim>\<open>Paginate(set, opts)\<close>: \<^verbatim>\<open>opts = opts || {}\<close>, then
  \<^verbatim>\<open>new Expr(Object.assign({ paginate: wrap(set) }, wrapValues(opts)))\<close>.\<close>

definition Paginate :: "jsval list \<Rightarrow> error + jsval" where
  "Paginate args =
     and_then (arity_between 1 2 args) (\<lambda>_.
     let opts = (if falsy (arg args 1) then JObject [] else arg args 1) in
     and_then (wrap (arg args 0)) (\<lambda>s.
     and_then (wrapValues opts) (\<lambda>wopts.
     Inr (JExpr (JObject (Object_assign [(''paginate'', s)] wopts))))))"

text \<open>\<^verbatim>\<open>varargs(values)\<close> on an \<^verbatim>\<open>arguments\<close> object, and three of the constructors
  that use it.\<close>

definition varargs :: "jsval list \<Rightarrow> jsval" where
  "varargs values = (if length values = 1 then values ! 0 else JArray values)"


definition Add :: "jsval list \<Rightarrow> error + jsval" where
  "Add args =
     and_then (arity_min 1 args) (\<lambda>_.
     and_then (wrap (varargs args)) (\<lambda>a.
     Inr (JExpr (JObject [(''add'', a)]))))"

definition LT :: "jsval list \<Rightarrow> error + jsval" where
  "LT args =
     and_then (arity_min 1 args) (\<lambda>_.
     and_then (wrap (varargs args)) (\<lambda>a.
     Inr (JExpr (JObject [(''lt'', a)]))))"

text \<open>\<^verbatim>\<open>Classes(scope)\<close>, with \<^verbatim>\<open>scope = scope || null\<close>, and \<^verbatim>\<open>NextId()\<close>.\<close>

definition Classes :: "jsval list \<Rightarrow> error + jsval" where
  "Classes args =
     and_then (arity_max 1 args) (\<lambda>_.
     let scope = (if falsy (arg args 0) then JNull else arg args 0) in
     and_then (wrap scope) (\<lambda>s.
     Inr (JExpr (JObject [(''classes'', s)]))))"

definition NextId :: "jsval list \<Rightarrow> error + jsval" where
  "NextId args =
     and_then (arity_exact 0 args) (\<lambda>_.
     Inr (JExpr (JObject [(''next_id'', JNull)])))"

text \<open>
  Most of the other constructors have one of four shapes, and are given by the shape
  and the data that the source function has. A name that is taken has a prime.

  The first shape is \<^verbatim>\<open>arity.exact(n, arguments)\<close> followed by
  \<^verbatim>\<open>return new Expr({ k1: wrap(p1), ..., km: wrap(pm) })\<close>: \<open>props\<close> lists the
  keys in the order written, each with the position of the parameter wrapped under
  it. (\<^verbatim>\<open>Var\<close>, \<^verbatim>\<open>Map\<close> and \<^verbatim>\<open>Filter\<close> above have this shape.)
\<close>

definition fixed :: "nat \<Rightarrow> (string \<times> nat) list \<Rightarrow> jsval list \<Rightarrow> error + jsval" where
  "fixed n props args =
     and_then (arity_exact n args) (\<lambda>_.
     and_then (sequence (map (\<lambda>field. wrap (arg args (snd field))) props)) (\<lambda>vs.
     Inr (JExpr (JObject (zip (map fst props) vs)))))"











definition IsNonEmpty :: "jsval list \<Rightarrow> error + jsval" where
  "IsNonEmpty = fixed 1 [(''is_nonempty'', 0)]"

definition KeyFromSecret :: "jsval list \<Rightarrow> error + jsval" where
  "KeyFromSecret = fixed 1 [(''key_from_secret'', 0)]"




























text \<open>The second shape is that of \<^verbatim>\<open>Add\<close> and \<^verbatim>\<open>LT\<close> above:
  \<^verbatim>\<open>arity.min(1, arguments)\<close>, then
  \<^verbatim>\<open>return new Expr({ tag: wrap(varargs(arguments)) })\<close>.\<close>

definition variadic :: "string \<Rightarrow> jsval list \<Rightarrow> error + jsval" where
  "variadic tag args =
     and_then (arity_min 1 args) (\<lambda>_.
     and_then (wrap (varargs args)) (\<lambda>a.
     Inr (JExpr (JObject [(tag, a)]))))"








definition LTE :: "jsval list \<Rightarrow> error + jsval" where
  "LTE = variadic ''lte''"





text \<open>The third shape is that of \<^verbatim>\<open>Classes\<close> above: \<^verbatim>\<open>arity.max(1, arguments)\<close>,
  \<^verbatim>\<open>scope = scope || null\<close>, then \<^verbatim>\<open>return new Expr({ tag: wrap(scope) })\<close>.\<close>

definition scoped :: "string \<Rightarrow> jsval list \<Rightarrow> error + jsval" where
  "scoped tag args =
     and_then (arity_max 1 args) (\<lambda>_.
     let scope = (if falsy (arg args 0) then JNull else arg args 0) in
     and_then (wrap scope) (\<lambda>s.
     Inr (JExpr (JObject [(tag, s)]))))"







text \<open>The fourth shape is that of \<^verbatim>\<open>NextId\<close> above: \<^verbatim>\<open>arity.exact(0, arguments)\<close>,
  then \<^verbatim>\<open>return new Expr({ tag: null })\<close>.\<close>

definition nullary :: "string \<Rightarrow> jsval list \<Rightarrow> error + jsval" where
  "nullary tag args =
     and_then (arity_exact 0 args) (\<lambda>_.
     Inr (JExpr (JObject [(tag, JNull)])))"




section \<open>The pagination helper (src/PageHelper.ts)\<close>

text \<open>
  The helper is a mutable object and its \<^verbatim>\<open>_faunaFunctions\<close> field refers to a mutable
  array, so both live in a store: \<open>helpers\<close> holds the helper objects and \<open>arrays\<close>
  the arrays, each addressed by its index; a new object goes to the end.

  An element of \<^verbatim>\<open>_faunaFunctions\<close> is one of the two closures that \<^verbatim>\<open>map\<close> and
  \<^verbatim>\<open>filter\<close> push; \<open>MapFn lambda\<close> is
  \<^verbatim>\<open>function(q) { return query.Map(q, lambda); }\<close>.

  \<open>params\<close> is \<open>None\<close> where the object has no such property (the objects that
  \<^verbatim>\<open>_clone\<close> makes). \<open>writable\<close> tells whether \<^verbatim>\<open>before\<close> and \<^verbatim>\<open>after\<close> can
  be assigned: the constructor makes ordinary properties, \<^verbatim>\<open>_clone\<close> defines them
  through \<^verbatim>\<open>Object.create\<close> with descriptors that give a \<^verbatim>\<open>value\<close> only, which
  leaves \<^verbatim>\<open>writable\<close> false, and the module is strict code, where an assignment to
  such a property raises a TypeError.
\<close>

datatype transform = MapFn jsval | FilterFn jsval

record PageHelper =
  set_expr :: jsval
  params :: "(string \<times> jsval) list option"
  before :: jsval
  after :: jsval
  faunaFunctions :: nat
  writable :: bool

text \<open>
  The client is the injected collaborator. \<open>requests\<close> lists the expressions handed
  to \<^verbatim>\<open>client.query\<close>, oldest first; \<open>responses\<close> is what the server will answer to
  the requests to come, in order: a resource, or a rejection. \<open>delivered\<close> lists the
  arguments with which the callback of \<^verbatim>\<open>each\<close> has been called.
\<close>

datatype response = Page jsval | Failure error

record world =
  helpers :: "PageHelper list"
  arrays :: "transform list list"
  requests :: "jsval list"
  responses :: "response list"
  delivered :: "jsval list"

text \<open>The state of a promise when the responses at hand have been consumed.\<close>

datatype 'a outcome = Resolved 'a | Rejected error | Pending

text \<open>A property read \<^verbatim>\<open>obj.key\<close>, with \<^verbatim>\<open>undefined\<close> for a property that is absent.\<close>

definition get_prop :: "jsval \<Rightarrow> string \<Rightarrow> error + jsval" where
  "get_prop obj key =
     and_then (own_fields obj) (\<lambda>kvs.
     Inr (case map_of kvs key of None \<Rightarrow> JUndefined | Some v \<Rightarrow> v))"

text \<open>
  The constructor, with the field initialisers of the class first. \<open>params0\<close> is the
  third argument, \<open>None\<close> when it is omitted (the default is \<^verbatim>\<open>{}\<close>). The result is
  the address of the new helper.
\<close>

definition PageHelper_new :: "jsval \<Rightarrow> (string \<times> jsval) list option \<Rightarrow> world \<Rightarrow> nat \<times> world" where
  "PageHelper_new set0 params0 w =
     (let ps = (case params0 of None \<Rightarrow> [] | Some kvs \<Rightarrow> kvs);
          this = \<lparr>set_expr = set0, params = Some (Object_assign [] (JObject ps)),
                  before = JUndefined, after = JUndefined,
                  faunaFunctions = length (arrays w), writable = True\<rparr>;
          this' =
            (if ''before'' \<in> fst ` set ps
             then this\<lparr>before := (case map_of ps ''before'' of None \<Rightarrow> JUndefined | Some v \<Rightarrow> v),
                        params := map_option (AList.delete ''before'') (params this)\<rparr>
             else if ''after'' \<in> fst ` set ps
             then this\<lparr>after := (case map_of ps ''after'' of None \<Rightarrow> JUndefined | Some v \<Rightarrow> v),
                        params := map_option (AList.delete ''after'') (params this)\<rparr>
             else this)
      in (length (helpers w),
          w\<lparr>helpers := helpers w @ [this'], arrays := arrays w @ [[]]\<rparr>))"

text \<open>\<^verbatim>\<open>_clone()\<close>: a new object with the five properties listed; the array is the
  one of \<^verbatim>\<open>this\<close>, not a copy.\<close>

definition clone :: "nat \<Rightarrow> world \<Rightarrow> nat \<times> world" where
  "clone this w =
     (let h = helpers w ! this;
          rv = \<lparr>set_expr = set_expr h, params = None, before = before h, after = after h,
                faunaFunctions = faunaFunctions h, writable = False\<rparr>
      in (length (helpers w), w\<lparr>helpers := helpers w @ [rv]\<rparr>))"

text \<open>\<^verbatim>\<open>array.push(f)\<close> on the array at address \<open>a\<close>.\<close>

definition push :: "nat \<Rightarrow> transform \<Rightarrow> world \<Rightarrow> world" where
  "push a f w = w\<lparr>arrays := (arrays w)[a := arrays w ! a @ [f]]\<rparr>"

definition map_PageHelper :: "nat \<Rightarrow> jsval \<Rightarrow> world \<Rightarrow> nat \<times> world" where
  "map_PageHelper this lambda w =
     (let (rv, w1) = clone this w
      in (rv, push (faunaFunctions (helpers w1 ! rv)) (MapFn lambda) w1))"

definition filter_PageHelper :: "nat \<Rightarrow> jsval \<Rightarrow> world \<Rightarrow> nat \<times> world" where
  "filter_PageHelper this lambda w =
     (let (rv, w1) = clone this w
      in (rv, push (faunaFunctions (helpers w1 ! rv)) (FilterFn lambda) w1))"

text \<open>The options that \<^verbatim>\<open>_retrieveNextPage(cursor, reverse)\<close> passes to \<^verbatim>\<open>Paginate\<close>.\<close>

definition retrieve_opts :: "PageHelper \<Rightarrow> jsval \<Rightarrow> bool \<Rightarrow> (string \<times> jsval) list" where
  "retrieve_opts h cursor reverse =
     (let opts = (case params h of None \<Rightarrow> [] | Some ps \<Rightarrow> Object_assign [] (JObject ps))
      in if cursor \<noteq> JUndefined
         then (if reverse then put ''before'' cursor opts
               else put ''after'' cursor opts)
         else (if reverse then put ''before'' JNull opts else opts))"

text \<open>One of the pushed closures applied to \<open>q\<close>, and the \<^verbatim>\<open>forEach\<close> over the array.\<close>

fun apply_transform :: "transform \<Rightarrow> jsval \<Rightarrow> error + jsval" where
  "apply_transform (MapFn lambda) q = Map [q, lambda]"
| "apply_transform (FilterFn lambda) q = Filter [q, lambda]"

fun apply_transforms :: "transform list \<Rightarrow> jsval \<Rightarrow> error + jsval" where
  "apply_transforms [] q = Inr q"
| "apply_transforms (f # fs) q =
     (case apply_transform f q of Inl e \<Rightarrow> Inl e | Inr q' \<Rightarrow> apply_transforms fs q')"

text \<open>The expression that \<^verbatim>\<open>_retrieveNextPage\<close> hands to \<^verbatim>\<open>client.query\<close>, which
  wraps it once more.\<close>

definition retrieve_query :: "PageHelper \<Rightarrow> transform list \<Rightarrow> jsval \<Rightarrow> bool \<Rightarrow> error + jsval" where
  "retrieve_query h fs cursor reverse =
     and_then (Paginate [set_expr h, JObject (retrieve_opts h cursor reverse)]) (\<lambda>q.
     and_then (apply_transforms fs q) wrap)"

text \<open>
  \<^verbatim>\<open>_retrieveNextPage(cursor, reverse)\<close>: an exception while the expression is built
  ends the call before anything is sent (it reaches the caller, and is recorded here as
  the outcome \<open>Rejected\<close>); otherwise the request is sent and the promise settles with
  the next response, or stays pending when there is none.
\<close>

definition retrieveNextPage :: "nat \<Rightarrow> jsval \<Rightarrow> bool \<Rightarrow> world \<Rightarrow> jsval outcome \<times> world" where
  "retrieveNextPage this cursor reverse w =
     (let h = helpers w ! this in
      case retrieve_query h (arrays w ! faunaFunctions h) cursor reverse of
        Inl e \<Rightarrow> (Rejected e, w)
      | Inr q \<Rightarrow>
          (let w1 = w\<lparr>requests := requests w @ [q]\<rparr> in
           case responses w1 of
             [] \<Rightarrow> (Pending, w1)
           | Failure e # rest \<Rightarrow> (Rejected e, w1\<lparr>responses := rest\<rparr>)
           | Page page # rest \<Rightarrow> (Resolved page, w1\<lparr>responses := rest\<rparr>)))"







text \<open>
  \<^verbatim>\<open>_consumePages(lambda, reverse)\<close> applied to a page. The callback is an observer:
  its call is recorded in \<open>delivered\<close>. The recursion ends because every page that
  arrives takes a response away.
\<close>

function consumePages :: "nat \<Rightarrow> bool \<Rightarrow> jsval \<Rightarrow> world \<Rightarrow> unit outcome \<times> world" where
  "consumePages this reverse page w =
     (case get_prop page ''data'' of
        Inl e \<Rightarrow> (Rejected e, w)
      | Inr d \<Rightarrow>
          (let w1 = w\<lparr>delivered := delivered w @ [d]\<rparr> in
           case get_prop page (if reverse then ''before'' else ''after'') of
             Inl e \<Rightarrow> (Rejected e, w1)
           | Inr nextCursor \<Rightarrow>
               if nextCursor \<noteq> JUndefined
               then (case retrieveNextPage this nextCursor reverse w1 of
                       (Resolved page', w2) \<Rightarrow> consumePages this reverse page' w2
                     | (Rejected e, w2) \<Rightarrow> (Rejected e, w2)
                     | (Pending, w2) \<Rightarrow> (Pending, w2))
               else (Resolved (), w1)))"
  by pat_completeness auto
termination
proof (relation "measure (\<lambda>(this, reverse, page, w). length (responses w))", goal_cases)
  case 1
  show ?case by simp
next
  case 2
  then show ?case
    by (auto simp: retrieveNextPage_def Let_def split: sum.splits list.splits response.splits)
qed

declare consumePages.simps [simp del]

definition each :: "nat \<Rightarrow> world \<Rightarrow> unit outcome \<times> world" where
  "each this w =
     (case retrieveNextPage this (after (helpers w ! this)) False w of
        (Resolved page, w1) \<Rightarrow> consumePages this False page w1
      | (Rejected e, w1) \<Rightarrow> (Rejected e, w1)
      | (Pending, w1) \<Rightarrow> (Pending, w1))"

definition eachReverse :: "nat \<Rightarrow> world \<Rightarrow> unit outcome \<times> world" where
  "eachReverse this w =
     (case retrieveNextPage this (before (helpers w ! this)) True w of
        (Resolved page, w1) \<Rightarrow> consumePages this True page w1
      | (Rejected e, w1) \<Rightarrow> (Rejected e, w1)
      | (Pending, w1) \<Rightarrow> (Pending, w1))"

section \<open>Notions used by the properties\<close>



text \<open>A store with no object in it and a client that has sent nothing.\<close>

definition empty_world :: "response list \<Rightarrow> world" where
  "empty_world rs = \<lparr>helpers = [], arrays = [], requests = [], responses = rs, delivered = []\<rparr>"

text \<open>The references that exist: those the constructor has returned, given references
  that exist.\<close>

inductive existing :: "ref \<Rightarrow> bool" where
  "Ref_new i clazz database = Inr r \<Longrightarrow>
   (\<forall>c. clazz = Some c \<longrightarrow> existing c) \<Longrightarrow>
   (\<forall>d. database = Some d \<longrightarrow> existing d) \<Longrightarrow> existing r"




text \<open>The order in which the host language lists the keys of an object: array
  indices first and ascending, no array index after another key.\<close>

fun key_ordered :: "string list \<Rightarrow> bool" where
  "key_ordered (k # k' # ks) =
     ((case array_index k' of
         None \<Rightarrow> True
       | Some j \<Rightarrow> (case array_index k of None \<Rightarrow> False | Some i \<Rightarrow> i < j))
      \<and> key_ordered (k' # ks))"
| "key_ordered ks = True"

text \<open>\<^verbatim>\<open>Expr.toString(wrap(v), caller)\<close>.\<close>

definition render_wrapped :: "jsval \<Rightarrow> string option \<Rightarrow> error + string" where
  "render_wrapped v caller = and_then (wrap v) (\<lambda>e. toString e caller)"

text \<open>The function tags of the constructors whose rendered names are in
  \<^verbatim>\<open>varArgsFunctions\<close>: the key each of \<^verbatim>\<open>Do\<close>, \<^verbatim>\<open>Call\<close>, \<^verbatim>\<open>Union\<close>, ...,
  \<^verbatim>\<open>Or\<close> gives to its expression.\<close>

definition varArgsTags :: "string list" where
  "varArgsTags =
     [''do'', ''call'', ''union'', ''intersection'', ''difference'', ''equals'', ''add'',
      ''multiply'', ''subtract'', ''divide'', ''modulo'', ''lt'', ''lte'', ''gt'', ''gte'',
      ''and'', ''or'']"

text \<open>The transform chain of the helper at address \<open>this\<close>: the content of the array
  its \<^verbatim>\<open>_faunaFunctions\<close> field refers to.\<close>

definition transforms :: "nat \<Rightarrow> world \<Rightarrow> transform list" where
  "transforms this w = arrays w ! faunaFunctions (helpers w ! this)"

section \<open>Properties\<close>

subsection \<open>Equality of references\<close>

text \<open>Whenever \<^verbatim>\<open>equals\<close> returns, it returns whether the two references are
  structurally equal.\<close>

lemma equals_sound: "equals a b = Inr r \<Longrightarrow> r = (b = Some a)"
proof (induction a b arbitrary: r rule: equals.induct)
  case (1 i c d)
  then show ?case by simp
next
  case (2 i c d i' c' d')
  show ?case
  proof (cases "i = i'")
    case False
    with 2(3) show ?thesis by auto
  next
    case True
    note ii = this
    show ?thesis
    proof (cases c)
      case None
      note cn = this
      show ?thesis
      proof (cases c')
        case None
        note c'n = this
        show ?thesis
        proof (cases d)
          case None
          with 2(3) ii cn c'n show ?thesis by (cases d') auto
        next
          case (Some dr)
          with 2(3) ii cn c'n have e: "equals dr d' = Inr r" by simp
          from 2(2)[OF _ _ _ _ _ e] ii cn c'n Some show ?thesis by auto
        qed
      next
        case (Some a)
        with 2(3) ii cn show ?thesis by simp
      qed
    next
      case (Some cr)
      note cs = this
      from 2(3) ii cs obtain rc where rc: "equals cr c' = Inr rc"
        by (auto split: sum.splits)
      from 2(1)[OF _ _ _ rc] ii cs have rceq: "rc = (c' = Some cr)" by auto
      show ?thesis
      proof (cases rc)
        case False
        with 2(3) ii cs rc rceq show ?thesis by auto
      next
        case True
        note t = this
        show ?thesis
        proof (cases d)
          case None
          with 2(3) ii cs rc t rceq show ?thesis by (cases d') (auto)
        next
          case (Some dr)
          with 2(3) ii cs rc t have e: "equals dr d' = Inr r" by (auto)
          from 2(2)[OF _ _ _ _ _ e] ii cs rc t Some rceq show ?thesis by auto
        qed
      qed
    qed
  qed
qed

text \<open>It raises whenever the ids agree and the left side lacks a \<^verbatim>\<open>class\<close> that the
  right side has, and likewise for \<^verbatim>\<open>database\<close> once the classes have been found
  equal.\<close>

lemma equals_raises_class: "equals (Ref i None d) (Some (Ref i (Some c') d')) = Inl TypeError"
  by simp

lemma equals_raises_database:
  "equals (Ref i None None) (Some (Ref i None (Some d'))) = Inl TypeError"
  by simp

text \<open>
  C5. The claim: \<^verbatim>\<open>a.equals(b)\<close> returns, without raising, for all references, also
  when one side has a \<^verbatim>\<open>class\<close> or \<^verbatim>\<open>database\<close> and the other has not. The code:
  with \<^verbatim>\<open>this.class\<close> absent and \<^verbatim>\<open>other.class\<close> present, the first disjunct is
  false and \<^verbatim>\<open>this.class.equals\<close> is a property read on \<^verbatim>\<open>undefined\<close>. Here
  \<^verbatim>\<open>new Ref('x').equals(new Ref('x', new Ref('classes')))\<close> raises a TypeError where
  the claim says it returns false.
\<close>

theorem equals_raises_when_class_absent_on_the_left:
  "equals (Ref ''x'' None None) (Some (Ref ''x'' (Some (Ref ''classes'' None None)) None))
     = Inl TypeError"
  by simp

subsection \<open>Arity\<close>

















text \<open>The four shapes, and the constructors written out above that have them.\<close>

lemma shapes_agree:
  "Var = fixed 1 [(''var'', 0)]"
  "Map = fixed 2 [(''map'', 1), (''collection'', 0)]"
  "Filter = fixed 2 [(''filter'', 1), (''collection'', 0)]"
  "Add = variadic ''add''"
  "LT = variadic ''lt''"
  "Classes = scoped ''classes''"
  "NextId = nullary ''next_id''"
  by (rule ext, simp add: Var_def Map_def Filter_def Add_def LT_def Classes_def NextId_def
        fixed_def variadic_def scoped_def nullary_def and_then_def split: sum.splits)+








subsection \<open>Construction of references\<close>

lemma existing_nonempty_ids: "existing r \<Longrightarrow> nonempty_ids r"
proof (induction rule: existing.induct)
  case (1 i clazz database r)
  from 1(1) obtain s where i: "i = IdString s" and s: "s \<noteq> []" and r: "r = Ref s clazz database"
    by (cases i) (auto split: if_splits)
  from 1(2,3) r s show ?case by (auto split: option.splits)
qed

text \<open>
  C8. Constructing a \<^verbatim>\<open>Ref\<close> raises exactly when the id is the empty string,
  \<^verbatim>\<open>null\<close> or \<^verbatim>\<open>undefined\<close>, and what it raises is \<open>InvalidValue\<close>; for a
  non-empty id it returns the reference with that id (and the given class and
  database); so every reference that exists has non-empty ids throughout.
\<close>

theorem Ref_new_rejects_empty_id:
  "((\<exists>e. Ref_new i clazz database = Inl e) \<longleftrightarrow> (i = IdString [] \<or> i = IdNull \<or> i = IdUndefined))
   \<and> (\<forall>e. Ref_new i clazz database = Inl e \<longrightarrow> e = InvalidValue ''id cannot be null or undefined'')
   \<and> (\<forall>s. i = IdString s \<and> s \<noteq> [] \<longrightarrow>
         (\<exists>r. Ref_new i clazz database = Inr r \<and> ref_id r = s
              \<and> ref_class r = clazz \<and> ref_database r = database))
   \<and> (\<forall>r. existing r \<longrightarrow> nonempty_ids r)"
  by (cases i) (auto simp: existing_nonempty_ids)

theorem Ref_new_rejects_empty_id_witness:
  "(\<exists>r. Ref_new (IdString ''frogs'') (Some (Ref ''classes'' None None)) None = Inr r
        \<and> ref_id r = ''frogs'')
   \<and> Ref_new (IdString []) None None = Inl (InvalidValue ''id cannot be null or undefined'')
   \<and> Ref_new IdUndefined None None = Inl (InvalidValue ''id cannot be null or undefined'')
   \<and> nonempty_ids (Ref ''frogs'' (Some (Ref ''classes'' None None)) None)"
proof -
  have c: "existing (Ref ''classes'' None None)"
    by (rule existing.intros[of "IdString ''classes''" None None]) simp_all
  have f: "existing (Ref ''frogs'' (Some (Ref ''classes'' None None)) None)"
    by (rule existing.intros[of "IdString ''frogs''" "Some (Ref ''classes'' None None)" None])
       (simp_all add: c)
  have n: "''frogs'' \<noteq> []" by simp
  from n Ref_new_rejects_empty_id[of "IdString ''frogs''" "Some (Ref ''classes'' None None)" None]
  have 1: "\<exists>r. Ref_new (IdString ''frogs'') (Some (Ref ''classes'' None None)) None = Inr r
        \<and> ref_id r = ''frogs''"
    by blast
  from Ref_new_rejects_empty_id[of "IdString []" None None]
  have 2: "Ref_new (IdString []) None None = Inl (InvalidValue ''id cannot be null or undefined'')"
    by blast
  from Ref_new_rejects_empty_id[of IdUndefined None None]
  have 3: "Ref_new IdUndefined None None = Inl (InvalidValue ''id cannot be null or undefined'')"
    by blast
  from f Ref_new_rejects_empty_id[of IdNull None None]
  have 4: "nonempty_ids (Ref ''frogs'' (Some (Ref ''classes'' None None)) None)"
    by blast
  from 1 2 3 4 show ?thesis by blast
qed

subsection \<open>Construction of timestamps\<close>

text \<open>
  C9. Constructing a \<^verbatim>\<open>FaunaTime\<close> from a string raises exactly when the string
  does not end with \<^verbatim>\<open>Z\<close> (the empty string included), and what it raises is
  \<open>InvalidValue\<close>; a string that ends with \<^verbatim>\<open>Z\<close> is stored as it is, and the
  value encodes as the object with the single key \<^verbatim>\<open>@ts\<close> and that string.
\<close>

theorem FaunaTime_new_requires_Z:
  "((\<exists>e. FaunaTime_new (StringArg v) = Inl e) \<longleftrightarrow> \<not> (v \<noteq> [] \<and> last v = CHR ''Z''))
   \<and> (\<forall>e. FaunaTime_new (StringArg v) = Inl e \<longrightarrow> (\<exists>msg. e = InvalidValue msg))
   \<and> (v \<noteq> [] \<and> last v = CHR ''Z'' \<longrightarrow>
        FaunaTime_new (StringArg v) = Inr (JFaunaTime v)
        \<and> raw (JFaunaTime v) = JStr v
        \<and> toJSON (JFaunaTime v) = Some (JObject [(''@ts'', JStr v)]))"
  by (auto simp: charAt_last_def)

theorem FaunaTime_new_requires_Z_witness:
  "FaunaTime_new (StringArg ''1970-01-01T00:00:00.123456789Z'')
     = Inr (JFaunaTime ''1970-01-01T00:00:00.123456789Z'')
   \<and> toJSON (JFaunaTime ''1970-01-01T00:00:00.123456789Z'')
     = Some (JObject [(''@ts'', JStr ''1970-01-01T00:00:00.123456789Z'')])
   \<and> (\<exists>msg. FaunaTime_new (StringArg ''1970-01-01T00:00:00.000+04:00'') = Inl (InvalidValue msg))
   \<and> (\<exists>msg. FaunaTime_new (StringArg []) = Inl (InvalidValue msg))"
proof -
  have z: "''1970-01-01T00:00:00.123456789Z'' \<noteq> []
           \<and> last ''1970-01-01T00:00:00.123456789Z'' = CHR ''Z''"
    by simp
  have o: "\<not> (''1970-01-01T00:00:00.000+04:00'' \<noteq> []
              \<and> last ''1970-01-01T00:00:00.000+04:00'' = CHR ''Z'')"
    by simp
  have e: "\<not> (([] :: string) \<noteq> [] \<and> last ([] :: string) = CHR ''Z'')"
    by simp
  from z FaunaTime_new_requires_Z[of "''1970-01-01T00:00:00.123456789Z''"]
  have 1: "FaunaTime_new (StringArg ''1970-01-01T00:00:00.123456789Z'')
             = Inr (JFaunaTime ''1970-01-01T00:00:00.123456789Z'')
           \<and> toJSON (JFaunaTime ''1970-01-01T00:00:00.123456789Z'')
             = Some (JObject [(''@ts'', JStr ''1970-01-01T00:00:00.123456789Z'')])"
    by blast
  from o FaunaTime_new_requires_Z[of "''1970-01-01T00:00:00.000+04:00''"]
  have 2: "\<exists>msg. FaunaTime_new (StringArg ''1970-01-01T00:00:00.000+04:00'') = Inl (InvalidValue msg)"
    by blast
  from e FaunaTime_new_requires_Z[of "[]"]
  have 3: "\<exists>msg. FaunaTime_new (StringArg []) = Inl (InvalidValue msg)"
    by blast
  from 1 2 3 show ?thesis by blast
qed

subsection \<open>Assignment of properties\<close>










text \<open>On an object whose keys are in the order of the host language, a key that comes
  last in that order is created last; so assigning the properties of such an object,
  in order, to an empty object gives the same list, unless \<^verbatim>\<open>__proto__\<close> is among
  the keys.\<close>

lemma key_ordered_before_index:
  "key_ordered (ks @ [k]) \<Longrightarrow> array_index k = Some i \<Longrightarrow>
     \<forall>k'\<in>set ks. \<exists>j. array_index k' = Some j \<and> j < i"
proof (induction ks)
  case Nil
  then show ?case by simp
next
  case (Cons k1 rest)
  show ?case
  proof (cases rest)
    case Nil
    with Cons.prems show ?thesis by (auto split: option.splits)
  next
    case (Cons k2 r)
    with Cons.prems Cons.IH show ?thesis by (fastforce split: option.splits)
  qed
qed

lemma key_ordered_butlast: "key_ordered (ks @ [k]) \<Longrightarrow> key_ordered ks"
proof (induction ks rule: key_ordered.induct)
  case (1 k k' ks)
  then show ?case by (cases ks) (auto split: option.splits)
qed simp_all

lemma insert_index_last:
  "\<forall>p\<in>set obj. \<exists>j. array_index (fst p) = Some j \<and> j < i \<Longrightarrow>
     insert_index i key v obj = obj @ [(key, v)]"
  by (induction obj) auto

lemma put_last:
  assumes "key \<notin> fst ` set obj" and "key \<noteq> ''__proto__''"
    and "key_ordered (map fst obj @ [key])"
  shows "put key v obj = obj @ [(key, v)]"
proof (cases "array_index key")
  case None
  with assms show ?thesis by (simp add: put_def)
next
  case (Some i)
  from key_ordered_before_index[OF assms(3) Some]
  have "\<forall>p\<in>set obj. \<exists>j. array_index (fst p) = Some j \<and> j < i" by simp
  from insert_index_last[OF this] Some assms(1,2) show ?thesis by (simp add: put_def)
qed

lemma key_ordered_prefix: "key_ordered (ks @ ks') \<Longrightarrow> key_ordered ks"
proof (induction ks' rule: rev_induct)
  case Nil
  then show ?case by simp
next
  case (snoc k ks')
  from snoc.prems have "key_ordered ((ks @ ks') @ [k])" by simp
  from key_ordered_butlast[OF this] snoc.IH show ?case by simp
qed

lemma put_all_ordered:
  "distinct (map fst (target @ kvs)) \<Longrightarrow> key_ordered (map fst (target @ kvs)) \<Longrightarrow>
     ''__proto__'' \<notin> fst ` set kvs \<Longrightarrow> put_all kvs target = target @ kvs"
  unfolding put_all_def
proof (induction kvs arbitrary: target)
  case Nil
  then show ?case by simp
next
  case (Cons kv kvs)
  from Cons.prems(2) have "key_ordered ((map fst target @ [fst kv]) @ map fst kvs)" by simp
  from key_ordered_prefix[OF this] have o: "key_ordered (map fst target @ [fst kv])" .
  from Cons.prems(1) have "fst kv \<notin> fst ` set target" by auto
  moreover from Cons.prems(3) have "fst kv \<noteq> ''__proto__''" by auto
  ultimately have "put (fst kv) (snd kv) target = target @ [(fst kv, snd kv)]"
    using o by (rule put_last)
  then have u: "put (fst kv) (snd kv) target = target @ [kv]" by simp
  from Cons.prems have "distinct (map fst ((target @ [kv]) @ kvs))"
    "key_ordered (map fst ((target @ [kv]) @ kvs))" "''__proto__'' \<notin> fst ` set kvs" by simp_all
  from Cons.IH[OF this] u show ?case by simp
qed

text \<open>Array indices are created in numeric order, before the other keys; \<^verbatim>\<open>01\<close>
  is no array index.\<close>

lemma wrap_index_keys:
  "wrap (JObject [(''1'', JNum 1), (''a'', JNum 2)])
     = Inr (JExpr (JObject [(''object'', JObject [(''1'', JNum 1), (''a'', JNum 2)])]))
  \<and> put ''0'' (JNum 0) [(''1'', JNum 1), (''a'', JNum 2)] = [(''0'', JNum 0), (''1'', JNum 1), (''a'', JNum 2)]
  \<and> put ''10'' (JNum 0) [(''9'', JNum 1), (''a'', JNum 2)] = [(''9'', JNum 1), (''10'', JNum 0), (''a'', JNum 2)]
  \<and> put ''01'' (JNum 0) [(''9'', JNum 1), (''a'', JNum 2)] = [(''9'', JNum 1), (''a'', JNum 2), (''01'', JNum 0)]"
  by code_simp

subsection \<open>Wrapping\<close>

lemma sequence_Inr:
  "sequence rs = Inr vs \<Longrightarrow> length vs = length rs \<and> (\<forall>i < length rs. rs ! i = Inr (vs ! i))"
proof (induction rs arbitrary: vs)
  case Nil
  then show ?case by simp
next
  case (Cons r rs)
  from Cons.prems obtain v vs' where r: "r = Inr v" and s: "sequence rs = Inr vs'" and vs: "vs = v # vs'"
    by (auto split: sum.splits)
  from Cons.IH[OF s] r vs show ?case by (auto simp: nth_Cons split: nat.splits)
qed

lemma sequence_total:
  "(\<exists>e. sequence rs = Inl e) \<longleftrightarrow> (\<exists>r\<in>set rs. \<exists>e. r = Inl e)"
  by (induction rs) (auto split: sum.splits)

lemma escape_differs: "JObject [(''object'', JObject m')] \<noteq> JObject m'"
proof
  assume "JObject [(''object'', JObject m')] = JObject m'"
  then have "weight (JObject [(''object'', JObject m')]) = weight (JObject m')" by simp
  then show False by simp
qed

lemma wrap_object:
  "wrap (JObject kvs) =
     and_then (wrapValues (JObject kvs)) (\<lambda>rv. Inr (JExpr (JObject [(''object'', rv)])))"
  by (simp add: wrapValues_def and_then_def split: sum.splits)

lemma sequence_wrap_strings: "sequence (map wrap (map JStr vars)) = Inr (map JStr vars)"
  by (induction vars) simp_all

lemma wrap_function:
  "is_function f \<Longrightarrow> wrap f = Lambda [f]"
proof -
  assume f: "is_function f"
  have a: "wrap (JArray (map JStr vars)) = Inr (JExpr (JArray (map JStr vars)))" for vars
    using sequence_wrap_strings[of vars] by (simp del: map_map)
  show ?thesis
  proof (cases f)
    case (JFunction vars result)
    then show ?thesis
    using a[of vars]
    by (cases vars; cases "tl vars"; cases "wrap result")
       (simp_all add: Lambda_def lambdaFunc_def lambdaExpr_def and_then_def arity_between_def
          arity_def del: wrap.simps(12))
  next
    case (JThrowing vars e)
    then show ?thesis
      by (cases vars)
         (simp_all add: Lambda_def lambdaFunc_def and_then_def arity_between_def arity_def)
  qed (use f in simp_all)
qed

text \<open>Wrapping a plain object that has no own key \<^verbatim>\<open>__proto__\<close>: it raises
  exactly when wrapping one of the values does, and otherwise the result has the
  keys of the object, in their order, each with the wrapped value, under the tag
  \<^verbatim>\<open>object\<close>.\<close>

lemma wrap_plain_object:
  assumes "distinct (map fst m)" and "key_ordered (map fst m)" and "''__proto__'' \<notin> fst ` set m"
  shows "((\<exists>e. wrap (JObject m) = Inl e) \<longleftrightarrow> (\<exists>kv\<in>set m. \<exists>e. wrap (snd kv) = Inl e))
   \<and> (\<forall>ex. wrap (JObject m) = Inr ex \<longrightarrow>
        (\<exists>m'. ex = JExpr (JObject [(''object'', JObject m')])
            \<and> raw ex = JObject [(''object'', JObject m')]
            \<and> map fst m' = map fst m
            \<and> (\<forall>i < length m. wrap (snd (m ! i)) = Inr (snd (m' ! i)))
            \<and> toJSON ex = Some (JObject [(''object'', JObject m')])
            \<and> (\<forall>tag v rest. tag \<noteq> ''object'' \<longrightarrow>
                  toJSON ex \<noteq> toJSON (JExpr (JObject ((tag, v) # rest))))
            \<and> toJSON ex \<noteq> toJSON (JExpr (JObject m'))))"
proof (intro conjI allI impI)
  show "(\<exists>e. wrap (JObject m) = Inl e) \<longleftrightarrow> (\<exists>kv\<in>set m. \<exists>e. wrap (snd kv) = Inl e)"
    using sequence_total[of "map (\<lambda>kv. wrap (snd kv)) m"]
    by (auto split: sum.splits)
next
  fix ex
  assume w: "wrap (JObject m) = Inr ex"
  then obtain vs where vs: "sequence (map (\<lambda>kv. wrap (snd kv)) m) = Inr vs"
    and ex0: "ex = JExpr (JObject [(''object'', JObject (put_all (zip (map fst m) vs) []))])"
    by (auto split: sum.splits)
  from sequence_Inr[OF vs] have len: "length vs = length m"
    and each: "\<forall>i < length m. wrap (snd (m ! i)) = Inr (vs ! i)"
    by auto
  let ?m' = "zip (map fst m) vs"
  from len have keys: "map fst ?m' = map fst m" by simp
  then have "fst ` set ?m' = fst ` set m" by (metis set_map)
  with assms keys have "put_all ?m' [] = ?m'" by (simp add: put_all_ordered)
  with ex0 have ex: "ex = JExpr (JObject [(''object'', JObject ?m')])" by simp
  moreover have "raw ex = JObject [(''object'', JObject ?m')]" using ex by simp
  moreover note keys
  moreover have "\<forall>i < length m. wrap (snd (m ! i)) = Inr (snd (?m' ! i))" using each len by simp
  moreover have "toJSON ex = Some (JObject [(''object'', JObject ?m')])" using ex by simp
  moreover have "\<forall>tag v rest. tag \<noteq> ''object'' \<longrightarrow>
                  toJSON ex \<noteq> toJSON (JExpr (JObject ((tag, v) # rest)))" using ex by simp
  moreover have "toJSON ex \<noteq> toJSON (JExpr (JObject ?m'))"
    using ex escape_differs[of ?m'] by simp
  ultimately show "\<exists>m'. ex = JExpr (JObject [(''object'', JObject m')])
            \<and> raw ex = JObject [(''object'', JObject m')]
            \<and> map fst m' = map fst m
            \<and> (\<forall>i < length m. wrap (snd (m ! i)) = Inr (snd (m' ! i)))
            \<and> toJSON ex = Some (JObject [(''object'', JObject m')])
            \<and> (\<forall>tag v rest. tag \<noteq> ''object'' \<longrightarrow>
                  toJSON ex \<noteq> toJSON (JExpr (JObject ((tag, v) # rest))))
            \<and> toJSON ex \<noteq> toJSON (JExpr (JObject m'))"
    by blast
qed

text \<open>
  C2. The claim: for every plain object \<open>m\<close>, \<^verbatim>\<open>wrap(m)\<close> has the raw form
  \<^verbatim>\<open>{object: m'}\<close> where \<open>m'\<close> has exactly the keys of \<open>m\<close>. The code:
  \<^verbatim>\<open>wrapValues\<close>, documented to return a copy of the object with the values
  wrapped, builds the copy with \<^verbatim>\<open>rv[key] = wrap(obj[key])\<close>; for the key
  \<^verbatim>\<open>__proto__\<close> this assignment creates no property. Here \<open>m\<close> is the object
  that \<^verbatim>\<open>JSON.parse('{"__proto__": 1, "a": 2}')\<close> returns, which has the two own keys
  \<^verbatim>\<open>__proto__\<close> and \<^verbatim>\<open>a\<close>: \<^verbatim>\<open>wrap(m)\<close> is the expression
  \<^verbatim>\<open>{object: {a: 2}}\<close>, where the claim says \<open>m'\<close> has both keys.
\<close>

theorem wrap_loses_the_proto_key:
  "wrap (JObject [(''__proto__'', JNum 1), (''a'', JNum 2)])
     = Inr (JExpr (JObject [(''object'', JObject [(''a'', JNum 2)])]))"
  by code_simp

subsection \<open>The renderer on examples of the test suite\<close>

text \<open>The expressions and the expected texts are those of the pretty-printing tests of
  the repository (\<^verbatim>\<open>pretty print Query\<close>, \<^verbatim>\<open>pretty print Expr with primitive types\<close>)
  and of the documentation of \<^verbatim>\<open>Lambda\<close>, built with the constructors modelled here.\<close>

lemma render_test_if:
  "and_then (Var [JStr ''x'']) (\<lambda>x. and_then (Var [JStr ''y'']) (\<lambda>y.
     and_then (LT [x, y]) (\<lambda>c.
     and_then (Lambda [JArray [JStr ''x'', JStr ''y''], JObject [(''smaller'', c), (''n'', JNum 10)]])
       (\<lambda>l. toString l None))))
   = Inr ''Lambda([\"x\", \"y\"], {smaller: LT(Var(\"x\"), Var(\"y\")), n: 10})''"
  by code_simp

lemma render_test_primitives:
  "and_then (Lambda [JStr ''_'', JArray [JNull, JUndefined, JBool True, JStr ''str'']])
       (\<lambda>l. toString l None)
   = Inr ''Lambda(\"_\", [null, undefined, true, \"str\"])''"
  by code_simp

lemma render_test_symbol:
  "and_then (Lambda [JStr ''_'', JSymbol ''foo'']) (\<lambda>l. toString l None)
   = Inr ''Lambda(\"_\", \"foo\")''"
  by code_simp

lemma render_test_function:
  "and_then (Lambda [JFunction [''a''] (JExpr (JObject [(''add'',
        JExpr (JArray [JExpr (JObject [(''var'', JStr ''a'')]), JExpr (JObject [(''var'', JStr ''a'')])]))]))])
       (\<lambda>l. toString l None)
   = Inr ''Lambda(\"a\", Add(Var(\"a\"), Var(\"a\")))''"
  by code_simp

lemma render_test_nonempty:
  "toString (JExpr (JObject [(''is_nonempty'', JExpr (JObject [(''var'', JStr ''coll'')]))])) None
     = Inr ''IsNonEmpty(Var(\"coll\"))''
   \<and> toString (JExpr (JObject [(''key_from_secret'', JExpr (JObject [(''var'', JStr ''secret'')]))])) None
     = Inr ''KeyFromSecret(Var(\"secret\"))''
   \<and> toString (JExpr (JObject [(''call'', JExpr (JObject [(''var'', JStr ''ref'')])),
                                 (''arguments'', JArray [JNum 1, JNum 2, JNum 3])])) None
     = Inr ''Call(Var(\"ref\"), 1, 2, 3)''"
  by code_simp

subsection \<open>Rendering of variadic arguments\<close>

lemma varArgsTags_names:
  "list_all (\<lambda>tag. tag \<noteq> ''object'' \<and> functionName tag \<in> set (map Inr varArgsFunctions)) varArgsTags"
  by code_simp

lemma toString_wrapped_pair:
  assumes "toString a' None = Inr s" and "toString b' None = Inr t"
  shows "toString (JExpr (JArray [a', b'])) caller =
           Inr (if caller \<in> set (map Some varArgsFunctions) then s @ '', '' @ t
                else ''['' @ s @ '', '' @ t @ '']'')"
  using assms by (subst toString.simps) simp

lemma toString_wrapped_pair_fails:
  assumes "toString a' None = Inl e \<or> toString b' None = Inl e"
  shows "\<exists>e'. toString (JExpr (JArray [a', b'])) caller = Inl e'"
  using assms by (subst toString.simps) (auto split: sum.splits)

lemma toString_call:
  assumes "tag \<noteq> ''object''" and "functionName tag = Inr fn" and "toString w (Some fn) = Inr args"
  shows "toString (JExpr (JObject [(tag, w)])) caller = Inr (fn @ ''('' @ args @ '')'')"
  using assms by (subst toString.simps) simp

text \<open>
  C6. Let \<open>s\<close> and \<open>t\<close> be the renderings of \<^verbatim>\<open>wrap(a)\<close> and \<^verbatim>\<open>wrap(b)\<close>. Under
  every caller of \<^verbatim>\<open>varArgsFunctions\<close> the wrapped sequence \<^verbatim>\<open>[a, b]\<close> renders as
  \<open>s\<close>, a comma and a space, \<open>t\<close>, without brackets; under any other caller, and
  under none, the same text is enclosed in brackets; and an expression that has one
  of the variadic tags with that sequence as its argument renders as the function name,
  which is one of \<^verbatim>\<open>varArgsFunctions\<close>, applied to the text without brackets. Where
  the rendering of \<^verbatim>\<open>wrap(a)\<close> or of \<^verbatim>\<open>wrap(b)\<close> raises, so does the rendering of
  the wrapped sequence.
\<close>

theorem varargs_rendering:
  "(case (render_wrapped a None, render_wrapped b None) of
      (Inr s, Inr t) \<Rightarrow>
        (\<forall>caller\<in>set varArgsFunctions.
           render_wrapped (JArray [a, b]) (Some caller) = Inr (s @ '', '' @ t))
        \<and> (\<forall>caller. caller \<notin> set (map Some varArgsFunctions) \<longrightarrow>
             render_wrapped (JArray [a, b]) caller = Inr (''['' @ s @ '', '' @ t @ '']''))
        \<and> (\<forall>tag\<in>set varArgsTags. \<exists>w fn.
             wrap (JArray [a, b]) = Inr w \<and> functionName tag = Inr fn
             \<and> toString (JExpr (JObject [(tag, w)])) None = Inr (fn @ ''('' @ s @ '', '' @ t @ '')''))
    | _ \<Rightarrow> \<forall>caller. \<exists>e. render_wrapped (JArray [a, b]) caller = Inl e)"
proof (cases "render_wrapped a None")
  case (Inl e)
  have "\<exists>e'. render_wrapped (JArray [a, b]) caller = Inl e'" for caller
  proof (cases "wrap a")
    case (Inl e1)
    then show ?thesis by (simp add: render_wrapped_def and_then_def)
  next
    case (Inr a')
    note wa = this
    with Inl have ta: "toString a' None = Inl e" by (simp add: render_wrapped_def and_then_def)
    show ?thesis
    proof (cases "wrap b")
      case (Inl e2)
      with wa show ?thesis by (simp add: render_wrapped_def and_then_def)
    next
      case (Inr b')
      from toString_wrapped_pair_fails[of a' e b' caller] ta wa Inr show ?thesis
        by (simp add: render_wrapped_def and_then_def)
    qed
  qed
  with Inl show ?thesis by simp
next
  case (Inr s)
  note a = this
  show ?thesis
  proof (cases "render_wrapped b None")
    case (Inl e)
    have "\<exists>e'. render_wrapped (JArray [a, b]) caller = Inl e'" for caller
    proof (cases "wrap a")
      case (Inl e1)
      then show ?thesis by (simp add: render_wrapped_def and_then_def)
    next
      case (Inr a')
      note wa = this
      show ?thesis
      proof (cases "wrap b")
        case (Inl e2)
        with wa show ?thesis by (simp add: render_wrapped_def and_then_def)
      next
        case (Inr b')
        with \<open>render_wrapped b None = Inl e\<close> have "toString b' None = Inl e"
          by (simp add: render_wrapped_def and_then_def)
        from toString_wrapped_pair_fails[of a' e b' caller] this wa Inr show ?thesis
          by (simp add: render_wrapped_def and_then_def)
      qed
    qed
    with a Inl show ?thesis by simp
  next
    case (Inr t)
    from a obtain a' where a': "wrap a = Inr a'" "toString a' None = Inr s"
      by (auto simp: render_wrapped_def and_then_def split: sum.splits)
    from Inr obtain b' where b': "wrap b = Inr b'" "toString b' None = Inr t"
      by (auto simp: render_wrapped_def and_then_def split: sum.splits)
    have w: "wrap (JArray [a, b]) = Inr (JExpr (JArray [a', b']))"
      using a' b' by simp
    note pair = toString_wrapped_pair[OF a'(2) b'(2)]
    have 1: "\<forall>caller\<in>set varArgsFunctions.
           render_wrapped (JArray [a, b]) (Some caller) = Inr (s @ '', '' @ t)"
      using w pair by (simp add: render_wrapped_def and_then_def del: wrap.simps)
    have 2: "\<forall>caller. caller \<notin> set (map Some varArgsFunctions) \<longrightarrow>
             render_wrapped (JArray [a, b]) caller = Inr (''['' @ s @ '', '' @ t @ '']'')"
      using w pair by (simp add: render_wrapped_def and_then_def del: wrap.simps)
    have 3: "\<forall>tag\<in>set varArgsTags. \<exists>w fn.
             wrap (JArray [a, b]) = Inr w \<and> functionName tag = Inr fn
             \<and> toString (JExpr (JObject [(tag, w)])) None = Inr (fn @ ''('' @ s @ '', '' @ t @ '')'')"
    proof
      fix tag assume "tag \<in> set varArgsTags"
      with varArgsTags_names have n: "tag \<noteq> ''object''"
        and "functionName tag \<in> set (map Inr varArgsFunctions)"
        by (auto simp: list_all_iff)
      then obtain fn where fn: "functionName tag = Inr fn" "fn \<in> set varArgsFunctions" by auto
      from pair[of "Some fn"] fn(2)
      have "toString (JExpr (JArray [a', b'])) (Some fn) = Inr (s @ '', '' @ t)" by simp
      from toString_call[OF n fn(1) this] w fn(1)
      show "\<exists>w fn. wrap (JArray [a, b]) = Inr w \<and> functionName tag = Inr fn
             \<and> toString (JExpr (JObject [(tag, w)])) None = Inr (fn @ ''('' @ s @ '', '' @ t @ '')'')"
        by auto
    qed
    from a Inr 1 2 3 show ?thesis by simp
  qed
qed


theorem varargs_rendering_witness:
  "render_wrapped (JArray [JExpr (JObject [(''var'', JStr ''x'')]), JNum 7]) (Some ''Union'')
     = Inr ''Var(\"x\"), 7''
   \<and> render_wrapped (JArray [JExpr (JObject [(''var'', JStr ''x'')]), JNum 7]) (Some ''Lambda'')
     = Inr ''[Var(\"x\"), 7]''
   \<and> render_wrapped (JArray [JExpr (JObject [(''var'', JStr ''x'')]), JNum 7]) None
     = Inr ''[Var(\"x\"), 7]''
   \<and> (\<exists>w. wrap (JArray [JExpr (JObject [(''var'', JStr ''x'')]), JNum 7]) = Inr w
         \<and> toString (JExpr (JObject [(''lte'', w)])) None = Inr ''LTE(Var(\"x\"), 7)'')
   \<and> (\<exists>e. render_wrapped (JArray [JNum 7, JFunction [] JNull]) (Some ''Union'') = Inl e)"
proof -
  define a where "a = JExpr (JObject [(''var'', JStr ''x'')])"
  define b where "b = JNum 7"
  define c where "c = JFunction [] JNull"
  define s where "s = ''Var(\"x\")''"
  define t where "t = ''7''"
  have ra: "render_wrapped a None = Inr s" unfolding a_def s_def by code_simp
  have rb: "render_wrapped b None = Inr t" unfolding b_def t_def by code_simp
  have rc: "render_wrapped c None = Inl (InvalidValue ''Provided Function must take at least 1 argument.'')"
    unfolding c_def by code_simp
  from varargs_rendering[of a b] ra rb
  have all: "(\<forall>caller\<in>set varArgsFunctions.
           render_wrapped (JArray [a, b]) (Some caller) = Inr (s @ '', '' @ t))
        \<and> (\<forall>caller. caller \<notin> set (map Some varArgsFunctions) \<longrightarrow>
             render_wrapped (JArray [a, b]) caller = Inr (''['' @ s @ '', '' @ t @ '']''))
        \<and> (\<forall>tag\<in>set varArgsTags. \<exists>w fn.
             wrap (JArray [a, b]) = Inr w \<and> functionName tag = Inr fn
             \<and> toString (JExpr (JObject [(tag, w)])) None = Inr (fn @ ''('' @ s @ '', '' @ t @ '')''))"
    by simp
  have u: "''Union'' \<in> set varArgsFunctions" by (simp add: varArgsFunctions_def)
  have l: "Some ''Lambda'' \<notin> set (map Some varArgsFunctions)" by (simp add: varArgsFunctions_def)
  have n: "None \<notin> set (map Some varArgsFunctions)" by simp
  have g: "''lte'' \<in> set varArgsTags" by (simp add: varArgsTags_def)
  have f: "functionName ''lte'' = Inr ''LTE''" by code_simp
  from all u have 1: "render_wrapped (JArray [a, b]) (Some ''Union'') = Inr (s @ '', '' @ t)"
    by blast
  from all l have 2: "render_wrapped (JArray [a, b]) (Some ''Lambda'') = Inr (''['' @ s @ '', '' @ t @ '']'')"
    by blast
  from all n have 3: "render_wrapped (JArray [a, b]) None = Inr (''['' @ s @ '', '' @ t @ '']'')"
    by blast
  from all g obtain w fn where w: "wrap (JArray [a, b]) = Inr w" "functionName ''lte'' = Inr fn"
      "toString (JExpr (JObject [(''lte'', w)])) None = Inr (fn @ ''('' @ s @ '', '' @ t @ '')'')"
    by blast
  with f have 4: "\<exists>w. wrap (JArray [a, b]) = Inr w
         \<and> toString (JExpr (JObject [(''lte'', w)])) None = Inr (''LTE'' @ ''('' @ s @ '', '' @ t @ '')'')"
    by auto
  from varargs_rendering[of b c] rb rc
  have 5: "\<exists>e. render_wrapped (JArray [b, c]) (Some ''Union'') = Inl e"
    by simp
  from 1 2 3 4 5 show ?thesis
    unfolding a_def b_def c_def s_def t_def by simp
qed

subsection \<open>Derived helpers\<close>

text \<open>What \<^verbatim>\<open>map\<close> does for every helper: the result is a new object, the fields of
  \<^verbatim>\<open>this\<close> stay, and the closure is appended to the one array that both refer to.\<close>

lemma map_PageHelper_shares:
  assumes "this < length (helpers w)" and "faunaFunctions (helpers w ! this) < length (arrays w)"
    and "map_PageHelper this lambda w = (rv, w')"
  shows "rv = length (helpers w) \<and> rv \<noteq> this
     \<and> helpers w' ! this = helpers w ! this
     \<and> faunaFunctions (helpers w' ! rv) = faunaFunctions (helpers w ! this)
     \<and> transforms this w' = transforms this w @ [MapFn lambda]
     \<and> transforms rv w' = transforms this w @ [MapFn lambda]"
  using assms
  by (auto simp: map_PageHelper_def clone_def push_def transforms_def Let_def nth_append)

text \<open>
  C1. The claim: \<^verbatim>\<open>p.map(fn)\<close> and \<^verbatim>\<open>p.filter(fn)\<close> leave the transform chain of
  \<^verbatim>\<open>p\<close> as it was, and two helpers derived from \<^verbatim>\<open>p\<close> have independent chains.
  The code: \<^verbatim>\<open>_clone\<close> gives the new object the array of \<^verbatim>\<open>this\<close> itself, and
  \<^verbatim>\<open>push\<close> appends to it. With \<^verbatim>\<open>p = new PageHelper(client, 'set')\<close>, whose chain
  is empty, \<^verbatim>\<open>q = p.map(f)\<close> is a new object (address 1) and the chain of \<^verbatim>\<open>p\<close>
  then holds the \<^verbatim>\<open>Map\<close> closure; after \<^verbatim>\<open>r = p.filter(g)\<close> (address 2) the chain
  of \<^verbatim>\<open>q\<close> holds the \<^verbatim>\<open>Filter\<close> closure as well.
\<close>

theorem map_mutates_the_base_helper:
  "transforms 0 (snd (PageHelper_new (JStr ''set'') None (empty_world []))) = []
   \<and> fst (map_PageHelper 0 (JFunction [''x''] (JBool True))
           (snd (PageHelper_new (JStr ''set'') None (empty_world [])))) = 1
   \<and> transforms 0 (snd (map_PageHelper 0 (JFunction [''x''] (JBool True))
           (snd (PageHelper_new (JStr ''set'') None (empty_world [])))))
      = [MapFn (JFunction [''x''] (JBool True))]
   \<and> fst (filter_PageHelper 0 (JFunction [''y''] (JBool False))
           (snd (map_PageHelper 0 (JFunction [''x''] (JBool True))
             (snd (PageHelper_new (JStr ''set'') None (empty_world [])))))) = 2
   \<and> transforms 1 (snd (filter_PageHelper 0 (JFunction [''y''] (JBool False))
           (snd (map_PageHelper 0 (JFunction [''x''] (JBool True))
             (snd (PageHelper_new (JStr ''set'') None (empty_world [])))))))
      = [MapFn (JFunction [''x''] (JBool True)), FilterFn (JFunction [''y''] (JBool False))]"
  by (simp add: transforms_def PageHelper_new_def empty_world_def map_PageHelper_def
        filter_PageHelper_def clone_def push_def Object_assign_def put_all_def Let_def)

subsection \<open>Cursors given to the constructor\<close>

















subsection \<open>Cursors after \<^verbatim>\<open>nextPage\<close>\<close>













subsection \<open>Traversals\<close>

lemma retrieveNextPage_frame:
  "retrieveNextPage this cursor reverse w = (r, w') \<Longrightarrow>
     helpers w' = helpers w \<and> arrays w' = arrays w \<and> delivered w' = delivered w"
  by (auto simp: retrieveNextPage_def Let_def split: sum.splits list.splits response.splits)

lemma consumePages_frame:
  "consumePages this reverse page w = (r, w') \<Longrightarrow> helpers w' = helpers w \<and> arrays w' = arrays w"
proof (induction this reverse page w arbitrary: r w' rule: consumePages.induct)
  case (1 this reverse page w)
  show ?case
  proof (cases "get_prop page ''data''")
    case (Inl e)
    with 1(2) show ?thesis by (auto simp: consumePages.simps[of this reverse page w])
  next
    case (Inr d)
    note d = this
    let ?w1 = "w\<lparr>delivered := delivered w @ [d]\<rparr>"
    show ?thesis
    proof (cases "get_prop page (if reverse then ''before'' else ''after'')")
      case (Inl e)
      with 1(2) d show ?thesis by (auto simp: consumePages.simps[of this reverse page w])
    next
      case (Inr nextCursor)
      note c = this
      show ?thesis
      proof (cases "nextCursor \<noteq> JUndefined")
        case False
        with 1(2) d c show ?thesis by (auto simp: consumePages.simps[of this reverse page w])
      next
        case True
        obtain o2 w2 where rn: "retrieveNextPage this nextCursor reverse ?w1 = (o2, w2)"
          by (cases "retrieveNextPage this nextCursor reverse ?w1")
        from retrieveNextPage_frame[OF rn] have f2: "helpers w2 = helpers w" "arrays w2 = arrays w"
          by simp_all
        show ?thesis
        proof (cases o2)
          case (Resolved page')
          with 1(2) d c True rn have "consumePages this reverse page' w2 = (r, w')"
            by (simp add: consumePages.simps[of this reverse page w])
          from 1(1)[OF d refl c True _ _ this] rn Resolved f2 show ?thesis by simp
        next
          case (Rejected e)
          with 1(2) d c True rn f2 show ?thesis
            by (auto simp: consumePages.simps[of this reverse page w])
        next
          case Pending
          with 1(2) d c True rn f2 show ?thesis
            by (auto simp: consumePages.simps[of this reverse page w])
        qed
      qed
    qed
  qed
qed

lemma each_frame: "each this w = (r, w') \<Longrightarrow> helpers w' = helpers w \<and> arrays w' = arrays w"
proof -
  assume e: "each this w = (r, w')"
  obtain o1 w1 where rn: "retrieveNextPage this (after (helpers w ! this)) False w = (o1, w1)"
    by (cases "retrieveNextPage this (after (helpers w ! this)) False w")
  from retrieveNextPage_frame[OF rn] have f: "helpers w1 = helpers w" "arrays w1 = arrays w"
    by simp_all
  show ?thesis
  proof (cases o1)
    case (Resolved page)
    with e rn have "consumePages this False page w1 = (r, w')" by (simp add: each_def)
    from consumePages_frame[OF this] f show ?thesis by simp
  next
    case (Rejected x)
    with e rn f show ?thesis by (auto simp: each_def)
  next
    case Pending
    with e rn f show ?thesis by (auto simp: each_def)
  qed
qed

lemma eachReverse_frame: "eachReverse this w = (r, w') \<Longrightarrow> helpers w' = helpers w \<and> arrays w' = arrays w"
proof -
  assume e: "eachReverse this w = (r, w')"
  obtain o1 w1 where rn: "retrieveNextPage this (before (helpers w ! this)) True w = (o1, w1)"
    by (cases "retrieveNextPage this (before (helpers w ! this)) True w")
  from retrieveNextPage_frame[OF rn] have f: "helpers w1 = helpers w" "arrays w1 = arrays w"
    by simp_all
  show ?thesis
  proof (cases o1)
    case (Resolved page)
    with e rn have "consumePages this True page w1 = (r, w')" by (simp add: eachReverse_def)
    from consumePages_frame[OF this] f show ?thesis by simp
  next
    case (Rejected x)
    with e rn f show ?thesis by (auto simp: eachReverse_def)
  next
    case Pending
    with e rn f show ?thesis by (auto simp: eachReverse_def)
  qed
qed

lemma map_filter_frame:
  "p < length (helpers w) \<Longrightarrow>
     helpers (snd (map_PageHelper this l w)) ! p = helpers w ! p
     \<and> helpers (snd (filter_PageHelper this l w)) ! p = helpers w ! p"
  by (simp add: map_PageHelper_def filter_PageHelper_def clone_def push_def Let_def nth_append)

text \<open>
  C10. \<^verbatim>\<open>each\<close> and \<^verbatim>\<open>eachReverse\<close> leave every helper object as it was, whatever
  the responses are and however the traversal ends: the \<^verbatim>\<open>before\<close> and \<^verbatim>\<open>after\<close>
  fields of every helper are the ones from before the call. The same holds when only
  the first \<open>n\<close> responses have arrived, that is, at any point of the traversal.
  Nor do \<^verbatim>\<open>map\<close> and \<^verbatim>\<open>filter\<close> change a helper that exists: of the operations of
  the helper, \<^verbatim>\<open>nextPage\<close> and \<^verbatim>\<open>previousPage\<close> alone assign the cursors.
\<close>

theorem each_leaves_cursors:
  "helpers (snd (each this w)) = helpers w
   \<and> helpers (snd (eachReverse this w)) = helpers w
   \<and> before (helpers (snd (each this w)) ! p) = before (helpers w ! p)
   \<and> after (helpers (snd (each this w)) ! p) = after (helpers w ! p)
   \<and> before (helpers (snd (eachReverse this w)) ! p) = before (helpers w ! p)
   \<and> after (helpers (snd (eachReverse this w)) ! p) = after (helpers w ! p)
   \<and> helpers (snd (each this (w\<lparr>responses := take n (responses w)\<rparr>))) = helpers w
   \<and> helpers (snd (eachReverse this (w\<lparr>responses := take n (responses w)\<rparr>))) = helpers w
   \<and> (p < length (helpers w) \<longrightarrow>
         helpers (snd (map_PageHelper this l w)) ! p = helpers w ! p
         \<and> helpers (snd (filter_PageHelper this l w)) ! p = helpers w ! p)"
proof -
  have a: "helpers (snd (each this v)) = helpers v" for v
    using each_frame[of this v "fst (each this v)" "snd (each this v)"] by simp
  have b: "helpers (snd (eachReverse this v)) = helpers v" for v
    using eachReverse_frame[of this v "fst (eachReverse this v)" "snd (eachReverse this v)"] by simp
  from a[of w] b[of w] a[of "w\<lparr>responses := take n (responses w)\<rparr>"]
       b[of "w\<lparr>responses := take n (responses w)\<rparr>"] map_filter_frame[of p w this l]
  show ?thesis by simp
qed

theorem each_leaves_cursors_witness:
  "fst (each 0 (snd (PageHelper_new (JStr ''set'') (Some [(''after'', JStr ''start'')])
         (empty_world [Page (JObject [(''data'', JArray [JNum 1]), (''after'', JStr ''A'')]),
                       Page (JObject [(''data'', JArray [JNum 2])])])))) = Resolved ()
   \<and> delivered (snd (each 0 (snd (PageHelper_new (JStr ''set'') (Some [(''after'', JStr ''start'')])
         (empty_world [Page (JObject [(''data'', JArray [JNum 1]), (''after'', JStr ''A'')]),
                       Page (JObject [(''data'', JArray [JNum 2])])])))))
       = [JArray [JNum 1], JArray [JNum 2]]
   \<and> after (helpers (snd (each 0 (snd (PageHelper_new (JStr ''set'') (Some [(''after'', JStr ''start'')])
         (empty_world [Page (JObject [(''data'', JArray [JNum 1]), (''after'', JStr ''A'')]),
                       Page (JObject [(''data'', JArray [JNum 2])])]))))) ! 0)
       = JStr ''start''
   \<and> after (helpers (snd (map_PageHelper 0 (JFunction [''x''] JNull)
         (snd (PageHelper_new (JStr ''set'') (Some [(''after'', JStr ''start'')])
         (empty_world [Page (JObject [(''data'', JArray [JNum 1]), (''after'', JStr ''A'')]),
                       Page (JObject [(''data'', JArray [JNum 2])])]))))) ! 0)
       = JStr ''start''"
proof -
  define w where "w = snd (PageHelper_new (JStr ''set'') (Some [(''after'', JStr ''start'')])
         (empty_world [Page (JObject [(''data'', JArray [JNum 1]), (''after'', JStr ''A'')]),
                       Page (JObject [(''data'', JArray [JNum 2])])]))"
  define l where "l = JFunction [''x''] JNull"
  have r: "fst (each 0 w) = Resolved ()"
      "delivered (snd (each 0 w)) = [JArray [JNum 1], JArray [JNum 2]]"
    unfolding w_def by code_simp+
  have s: "after (helpers w ! 0) = JStr ''start''" unfolding w_def by code_simp
  have len: "0 < length (helpers w)" unfolding w_def by code_simp
  from each_leaves_cursors[of 0 w 0 0 l] len s
  have "after (helpers (snd (each 0 w)) ! 0) = JStr ''start''"
    "after (helpers (snd (map_PageHelper 0 l w)) ! 0) = JStr ''start''"
    by simp_all
  with r show ?thesis unfolding w_def l_def by blast
qed

end
